theory Spec2Isabelle
  imports Main "HOL-Library.Word"
begin

section \<open>The protocol reader and writer of go-hdb (driver/internal/protocol)\<close>

text \<open>
  A shallow embedding of \<^verbatim>\<open>parts.go\<close>: the part registry (\<^verbatim>\<open>kind()\<close>,
  \<^verbatim>\<open>genPartTypeMap\<close>, \<^verbatim>\<open>newGenPartReader\<close>), \<^verbatim>\<open>padBytes\<close>, the
  \<^verbatim>\<open>Reader\<close> (\<^verbatim>\<open>checkError\<close>, \<^verbatim>\<open>read\<close>, \<^verbatim>\<open>skip\<close>, \<^verbatim>\<open>skipPadding\<close>,
  \<^verbatim>\<open>skipPart\<close>, \<^verbatim>\<open>readPart\<close>, \<^verbatim>\<open>IterateParts\<close>, \<^verbatim>\<open>SkipParts\<close>) and the
  \<^verbatim>\<open>Writer\<close> (\<^verbatim>\<open>_write\<close>, \<^verbatim>\<open>Write\<close>).

  Mutation of the receiver is explicit state passing. A Go \<^verbatim>\<open>error\<close> result is an
  \<open>error option\<close> (\<open>None\<close> is \<^verbatim>\<open>nil\<close>); a \<^verbatim>\<open>panic\<close> is the outcome \<open>Panics\<close>.
  Go's \<^verbatim>\<open>int\<close> and \<^verbatim>\<open>int64\<close> are 64 bits wide on the platforms the driver runs on; the byte
  counts held in them are modelled as unbounded integers. The fixed-width header fields
  are words, read with \<open>sint\<close> (signed) or \<open>uint\<close> (unsigned) as the source converts them.
\<close>

subsection \<open>Part kinds and part types\<close>

text \<open>
  \<^verbatim>\<open>PartKind\<close> is a one-byte tag. Its declaration is in another file of the package, so the
  kinds that \<^verbatim>\<open>parts.go\<close> names are constructors, and \<open>PkOther b\<close> is any other wire value.
\<close>

datatype PartKind =
    PkError | PkAuthentication | PkClientID | PkClientInfo | PkTopologyInformation
  | PkCommand | PkRowsAffected | PkStatementID | PkParameterMetadata | PkParameters
  | PkOutputParameters | PkResultMetadata | PkResultsetID | PkResultset | PkFetchSize
  | PkReadLobRequest | PkReadLobReply | PkWriteLobRequest | PkWriteLobReply
  | PkClientContext | PkConnectOptions | PkDBConnectInfo | PkStatementContext
  | PkTransactionFlags | PkOther "8 word"

text \<open>The concrete part types of \<^verbatim>\<open>parts.go\<close> other than \<^verbatim>\<open>HdbErrors\<close> and \<^verbatim>\<open>RowsAffected\<close>.\<close>

datatype PartType =
    TAuthInitRequest | TAuthInitReply | TAuthFinalRequest | TAuthFinalReply
  | TClientID | TclientInfo | TTopologyInformation | TCommand | TStatementID
  | TParameterMetadata | TInputParameters | TOutputParameters | TResultMetadata
  | TResultsetID | TResultset | TFetchsize | TReadLobRequest | TReadLobReply
  | TWriteLobRequest | TWriteLobReply | TClientContext | TConnectOptions
  | TDBConnectInfo | TstatementContext | TtransactionFlags

datatype ErrorLevel = LevelWarning | LevelError | LevelFatalError

text \<open>
  Modelled from the spec: the error record (declared in another file of the package) holds
  severity, code, text and a statement index that is initially unset.
\<close>

record HdbError =
  errorLevel :: ErrorLevel
  errorCode :: int
  errorText :: string
  stmtNo :: "int option"

record HdbErrors =
  errs :: "HdbError list"
  onlyWarnings :: bool

record RowsAffected =
  Ofs :: int
  rows :: "int list"

type_synonym payload = "8 word list"

text \<open>
  A value of the interface \<^verbatim>\<open>Part\<close>. The two types that \<^verbatim>\<open>Reader.read\<close> tells apart
  carry their decoded content; any other part type carries an opaque payload.
\<close>

datatype Part =
    PHdbErrors HdbErrors
  | PRowsAffected RowsAffected
  | POther PartType payload

fun kind :: "Part \<Rightarrow> PartKind" where
  "kind (PHdbErrors _) = PkError"
| "kind (PRowsAffected _) = PkRowsAffected"
| "kind (POther TAuthInitRequest _) = PkAuthentication"
| "kind (POther TAuthInitReply _) = PkAuthentication"
| "kind (POther TAuthFinalRequest _) = PkAuthentication"
| "kind (POther TAuthFinalReply _) = PkAuthentication"
| "kind (POther TClientID _) = PkClientID"
| "kind (POther TclientInfo _) = PkClientInfo"
| "kind (POther TTopologyInformation _) = PkTopologyInformation"
| "kind (POther TCommand _) = PkCommand"
| "kind (POther TStatementID _) = PkStatementID"
| "kind (POther TParameterMetadata _) = PkParameterMetadata"
| "kind (POther TInputParameters _) = PkParameters"
| "kind (POther TOutputParameters _) = PkOutputParameters"
| "kind (POther TResultMetadata _) = PkResultMetadata"
| "kind (POther TResultsetID _) = PkResultsetID"
| "kind (POther TResultset _) = PkResultset"
| "kind (POther TFetchsize _) = PkFetchSize"
| "kind (POther TReadLobRequest _) = PkReadLobRequest"
| "kind (POther TReadLobReply _) = PkReadLobReply"
| "kind (POther TWriteLobRequest _) = PkWriteLobRequest"
| "kind (POther TWriteLobReply _) = PkWriteLobReply"
| "kind (POther TClientContext _) = PkClientContext"
| "kind (POther TConnectOptions _) = PkConnectOptions"
| "kind (POther TDBConnectInfo _) = PkDBConnectInfo"
| "kind (POther TstatementContext _) = PkStatementContext"
| "kind (POther TtransactionFlags _) = PkTransactionFlags"

text \<open>
  The decoder interface a part type implements, as the second \<^verbatim>\<open>var\<close> block of
  \<^verbatim>\<open>parts.go\<close> asserts it. \<^verbatim>\<open>Reader.readPart\<close> switches on the first three; a result
  part decoder falls to its \<^verbatim>\<open>default\<close> branch.
\<close>

datatype DecoderShape = DefPart | NumArgPart | BufLenPart | ResultPart

fun decoderShape :: "PartType \<Rightarrow> DecoderShape" where
  "decoderShape TAuthInitRequest = DefPart"
| "decoderShape TAuthInitReply = DefPart"
| "decoderShape TAuthFinalRequest = DefPart"
| "decoderShape TAuthFinalReply = DefPart"
| "decoderShape TClientID = BufLenPart"
| "decoderShape TclientInfo = NumArgPart"
| "decoderShape TTopologyInformation = NumArgPart"
| "decoderShape TCommand = BufLenPart"
| "decoderShape TStatementID = DefPart"
| "decoderShape TParameterMetadata = NumArgPart"
| "decoderShape TInputParameters = NumArgPart"
| "decoderShape TOutputParameters = ResultPart"
| "decoderShape TResultMetadata = NumArgPart"
| "decoderShape TResultsetID = DefPart"
| "decoderShape TResultset = ResultPart"
| "decoderShape TFetchsize = DefPart"
| "decoderShape TReadLobRequest = DefPart"
| "decoderShape TWriteLobRequest = NumArgPart"
| "decoderShape TReadLobReply = NumArgPart"
| "decoderShape TWriteLobReply = NumArgPart"
| "decoderShape TClientContext = NumArgPart"
| "decoderShape TConnectOptions = NumArgPart"
| "decoderShape TDBConnectInfo = NumArgPart"
| "decoderShape TstatementContext = NumArgPart"
| "decoderShape TtransactionFlags = NumArgPart"

text \<open>\<^verbatim>\<open>reflect.New(pt)\<close>: the zero value of each registered type.\<close>

definition zeroHdbErrors :: HdbErrors where
  "zeroHdbErrors = \<lparr>errs = [], onlyWarnings = False\<rparr>"

definition zeroRowsAffected :: RowsAffected where
  "zeroRowsAffected = \<lparr>Ofs = 0, rows = []\<rparr>"

fun genPartTypeMap :: "PartKind \<Rightarrow> Part option" where
  "genPartTypeMap PkError = Some (PHdbErrors zeroHdbErrors)"
| "genPartTypeMap PkClientID = Some (POther TClientID [])"
| "genPartTypeMap PkClientInfo = Some (POther TclientInfo [])"
| "genPartTypeMap PkTopologyInformation = Some (POther TTopologyInformation [])"
| "genPartTypeMap PkCommand = Some (POther TCommand [])"
| "genPartTypeMap PkRowsAffected = Some (PRowsAffected zeroRowsAffected)"
| "genPartTypeMap PkStatementID = Some (POther TStatementID [])"
| "genPartTypeMap PkResultsetID = Some (POther TResultsetID [])"
| "genPartTypeMap PkFetchSize = Some (POther TFetchsize [])"
| "genPartTypeMap PkReadLobRequest = Some (POther TReadLobRequest [])"
| "genPartTypeMap PkReadLobReply = Some (POther TReadLobReply [])"
| "genPartTypeMap PkWriteLobReply = Some (POther TWriteLobReply [])"
| "genPartTypeMap PkWriteLobRequest = Some (POther TWriteLobRequest [])"
| "genPartTypeMap PkClientContext = Some (POther TClientContext [])"
| "genPartTypeMap PkConnectOptions = Some (POther TConnectOptions [])"
| "genPartTypeMap PkTransactionFlags = Some (POther TtransactionFlags [])"
| "genPartTypeMap PkStatementContext = Some (POther TstatementContext [])"
| "genPartTypeMap PkDBConnectInfo = Some (POther TDBConnectInfo [])"
| "genPartTypeMap _ = None"

definition newGenPartReader :: "PartKind \<Rightarrow> Part option" where
  "newGenPartReader k = (if k = PkAuthentication then None else genPartTypeMap k)"

subsection \<open>Errors, panics and outcomes\<close>

datatype error =
    ErrBadConn
  | ErrUnexpectedEOF
  | ErrNegativeCount
  | ErrServer HdbErrors
  | ErrMessageHeaderSize int
  | ErrPartHeaderSize int
  | ErrOther nat
  | ErrJoin "error list"

datatype panic =
    PanicVarPartLength int int
  | PanicBufferLength int int
  | PanicDecoderNotFound Part

datatype 'a outcome = Panics panic | Returns 'a

text \<open>
  \<^verbatim>\<open>errors.Join\<close> and \<^verbatim>\<open>errors.Is\<close> of the Go standard library: \<^verbatim>\<open>Join\<close> drops the
  \<^verbatim>\<open>nil\<close> arguments and returns \<^verbatim>\<open>nil\<close> when none is left; \<^verbatim>\<open>Is\<close> compares the error
  with the target and then searches the errors a joined error unwraps to.
\<close>

definition errors_Join :: "error option list \<Rightarrow> error option" where
  "errors_Join es =
    (case List.map_filter (\<lambda>e. e) es of [] \<Rightarrow> None | x # xs \<Rightarrow> Some (ErrJoin (x # xs)))"

fun errors_Is :: "error \<Rightarrow> error \<Rightarrow> bool" where
  "errors_Is (ErrJoin es) t = (ErrJoin es = t \<or> list_ex (\<lambda>e. errors_Is e t) es)"
| "errors_Is e t = (e = t)"

subsection \<open>Padding\<close>

text \<open>Go's \<^verbatim>\<open>%\<close> truncates towards zero: the remainder has the sign of the dividend.\<close>

definition go_rem :: "int \<Rightarrow> int \<Rightarrow> int" where
  "go_rem a b = sgn a * (\<bar>a\<bar> mod \<bar>b\<bar>)"

definition padding :: int where
  "padding = 8"

definition padBytes :: "int \<Rightarrow> int" where
  "padBytes sz = (let r = go_rem sz padding in if r \<noteq> 0 then padding - r else 0)"

text \<open>
  Modelled from the spec: the header sizes (constants declared outside the files at
  hand): the segment header counts 13 bytes, the part header 16.
\<close>

definition segmentHeaderSize :: int where
  "segmentHeaderSize = 13"

definition partHeaderSize :: int where
  "partHeaderSize = 16"

subsection \<open>The decoder\<close>

text \<open>
  Modelled from the spec: \<^verbatim>\<open>encoding.Decoder\<close> (in another file of the package) wraps the byte
  stream and keeps a resettable byte counter and a sticky error. Once the sticky error is
  set every further read is a no-op until the error is reset. An I/O error of the stream
  (here: the stream ends early, or a negative count is asked for) becomes the sticky error.
\<close>

record Decoder =
  rd :: "8 word list"
  cnt :: int
  derr :: "error option"

definition dec_ResetCnt :: "Decoder \<Rightarrow> Decoder" where
  "dec_ResetCnt d = d\<lparr>cnt := 0\<rparr>"

definition dec_ResetError :: "Decoder \<Rightarrow> Decoder" where
  "dec_ResetError d = d\<lparr>derr := None\<rparr>"

definition dec_Skip :: "int \<Rightarrow> Decoder \<Rightarrow> Decoder" where
  "dec_Skip n d =
    (if derr d \<noteq> None then d
     else if n < 0 then d\<lparr>derr := Some ErrNegativeCount\<rparr>
     else if nat n \<le> length (rd d) then d\<lparr>rd := drop (nat n) (rd d), cnt := cnt d + n\<rparr>
     else d\<lparr>rd := [], cnt := cnt d + int (length (rd d)), derr := Some ErrUnexpectedEOF\<rparr>)"

subsection \<open>Headers\<close>

record messageHeader =
  sessionID :: "64 word"
  packetCount :: "32 word"
  varPartLength :: "32 word"
  varPartSize :: "32 word"
  noOfSegm :: "16 word"

record segmentHeader =
  segmentLength :: "32 word"
  segmentOfs :: "32 word"
  noOfParts :: "16 word"
  segmentNo :: "16 word"
  segmentKind :: "8 word"
  messageType :: "8 word"
  commit :: bool
  functionCode :: "16 word"

record partHeader =
  partKind :: PartKind
  partAttributes :: "8 word"
  argumentCount :: "16 word"
  bigArgumentCount :: "32 word"
  bufferLength :: "32 word"
  bufferSize :: "32 word"

text \<open>
  Modelled from the spec: \<^verbatim>\<open>partHeader.numArg\<close> and \<^verbatim>\<open>partHeader.bufLen\<close> (in another
  file of the package): the count is in the 16-bit field unless that field is \<open>-1\<close>, which
  signals the 32-bit form.
\<close>

definition ph_numArg :: "partHeader \<Rightarrow> int" where
  "ph_numArg h =
    (if sint (argumentCount h) = -1 then sint (bigArgumentCount h) else sint (argumentCount h))"

definition ph_bufLen :: "partHeader \<Rightarrow> int" where
  "ph_bufLen h = sint (bufferLength h)"

subsection \<open>The decoders the reader calls\<close>

text \<open>
  The header decoders (\<^verbatim>\<open>messageHeader.decode\<close>, \<^verbatim>\<open>segmentHeader.decode\<close>,
  \<^verbatim>\<open>partHeader.decode\<close>) and the part decoders (\<^verbatim>\<open>decode\<close>, \<^verbatim>\<open>decodeNumArg\<close>,
  \<^verbatim>\<open>decodeBufLen\<close> of each part type) are in other files of the package. They are
  parameters of the model: each takes the decoder, advances it, and returns its error
  together with the header or part it filled in.
\<close>

record Env =
  mh_decode :: "Decoder \<Rightarrow> error option \<times> messageHeader \<times> Decoder"
  sh_decode :: "Decoder \<Rightarrow> error option \<times> segmentHeader \<times> Decoder"
  ph_decode :: "Decoder \<Rightarrow> error option \<times> partHeader \<times> Decoder"
  decodeErrors :: "HdbErrors \<Rightarrow> Decoder \<Rightarrow> int \<Rightarrow> error option \<times> HdbErrors \<times> Decoder"
  decodeRows :: "RowsAffected \<Rightarrow> Decoder \<Rightarrow> int \<Rightarrow> error option \<times> RowsAffected \<times> Decoder"
  decodeDef :: "PartType \<Rightarrow> payload \<Rightarrow> Decoder \<Rightarrow> error option \<times> payload \<times> Decoder"
  decodeNumArg :: "PartType \<Rightarrow> payload \<Rightarrow> Decoder \<Rightarrow> int \<Rightarrow> error option \<times> payload \<times> Decoder"
  decodeBufLen :: "PartType \<Rightarrow> payload \<Rightarrow> Decoder \<Rightarrow> int \<Rightarrow> error option \<times> payload \<times> Decoder"

text \<open>
  The type switch of \<^verbatim>\<open>readPart\<close>: \<open>None\<close> is its \<^verbatim>\<open>default\<close> branch (no decoder
  function), which panics.
\<close>

fun decodePart :: "Env \<Rightarrow> Part \<Rightarrow> partHeader \<Rightarrow> Decoder \<Rightarrow> (error option \<times> Part \<times> Decoder) option" where
  "decodePart env (PHdbErrors e) h d =
     (case decodeErrors env e d (ph_numArg h) of (er, e', d') \<Rightarrow> Some (er, PHdbErrors e', d'))"
| "decodePart env (PRowsAffected ra) h d =
     (case decodeRows env ra d (ph_numArg h) of (er, ra', d') \<Rightarrow> Some (er, PRowsAffected ra', d'))"
| "decodePart env (POther t v) h d =
     (case decoderShape t of
        DefPart \<Rightarrow> (case decodeDef env t v d of (er, v', d') \<Rightarrow> Some (er, POther t v', d'))
      | NumArgPart \<Rightarrow>
          (case decodeNumArg env t v d (ph_numArg h) of (er, v', d') \<Rightarrow> Some (er, POther t v', d'))
      | BufLenPart \<Rightarrow>
          (case decodeBufLen env t v d (ph_bufLen h) of (er, v', d') \<Rightarrow> Some (er, POther t v', d'))
      | ResultPart \<Rightarrow> None)"

subsection \<open>The reader\<close>

datatype LogRecord =
    TraceMsgHdr messageHeader
  | TraceSegHdr segmentHeader
  | TraceParHdr partHeader
  | TracePar Part
  | TraceSkip PartKind
  | LogWarn HdbError

text \<open>
  \<open>logger\<close> is the list of records handed to the logger so far. \<open>partCache\<close> holds
  pointers in the source: a part decoded through the cache changes the cached object, so
  the model stores the decoded value back under its kind. \<open>lastErrors\<close> and
  \<open>lastRowsAffected\<close> point to the object decoded last; every decode of such an object is
  followed by the assignment in \<^verbatim>\<open>read\<close>, so the value at that moment is the object.
\<close>

record Reader =
  protTrace :: bool
  logger :: "LogRecord list"
  dec :: Decoder
  mh :: messageHeader
  sh :: segmentHeader
  ph :: partHeader
  readBytes :: int
  numPart :: int
  cntPart :: int
  partCache :: "PartKind \<Rightarrow> Part option"
  lastErrors :: "HdbErrors option"
  lastRowsAffected :: "RowsAffected option"
  err :: "error option"

definition trace :: "LogRecord \<Rightarrow> Reader \<Rightarrow> Reader" where
  "trace x r = (if protTrace r then r\<lparr>logger := logger r @ [x]\<rparr> else r)"

text \<open>
  Modelled from the spec: the sentinel of a failed statement in a rows-affected vector
  and \<^verbatim>\<open>HdbErrors.setStmtNo\<close> (both in another file of the package). The spec gives the
  sentinel no numeral; the protocol's value is \<open>-3\<close>. \<open>setStmtNo j n\<close> assigns the
  statement index \<open>n\<close> to the \<open>j\<close>-th error, and nothing when there is no \<open>j\<close>-th error.
\<close>

definition RaExecutionFailed :: int where
  "RaExecutionFailed = -3"

definition setStmtNo :: "nat \<Rightarrow> int \<Rightarrow> HdbErrors \<Rightarrow> HdbErrors" where
  "setStmtNo j n e =
    (if j < length (errs e) then e\<lparr>errs := (errs e)[j := (errs e ! j)\<lparr>stmtNo := Some n\<rparr>]\<rparr> else e)"

text \<open>
  The loop of \<^verbatim>\<open>checkError\<close> that links statements to errors: \<open>i\<close> is the index into
  \<^verbatim>\<open>rows\<close>, \<open>j\<close> the number of failed entries met so far.
\<close>

fun linkStmts :: "int \<Rightarrow> int list \<Rightarrow> nat \<Rightarrow> nat \<Rightarrow> HdbErrors \<Rightarrow> HdbErrors" where
  "linkStmts ofs [] i j e = e"
| "linkStmts ofs (x # xs) i j e =
     (if x = RaExecutionFailed
      then linkStmts ofs xs (Suc i) (Suc j) (setStmtNo j (ofs + int i) e)
      else linkStmts ofs xs (Suc i) j e)"

definition fuse :: "RowsAffected option \<Rightarrow> HdbErrors \<Rightarrow> HdbErrors" where
  "fuse ra e = (case ra of None \<Rightarrow> e | Some x \<Rightarrow> linkStmts (Ofs x) (rows x) 0 0 e)"

text \<open>The deferred function of \<^verbatim>\<open>checkError\<close>.\<close>

definition initReadFlags :: "Reader \<Rightarrow> Reader" where
  "initReadFlags r =
    r\<lparr>lastErrors := None, lastRowsAffected := None, err := None, dec := dec_ResetError (dec r)\<rparr>"

definition checkError :: "Reader \<Rightarrow> error option \<times> Reader" where
  "checkError r =
    (if err r \<noteq> None then (err r, initReadFlags r)
     else if derr (dec r) \<noteq> None then (derr (dec r), initReadFlags r)
     else case lastErrors r of
        None \<Rightarrow> (None, initReadFlags r)
      | Some e0 \<Rightarrow>
          (let e = fuse (lastRowsAffected r) e0 in
           if onlyWarnings e
           then (None, initReadFlags (r\<lparr>logger := logger r @ map LogWarn (errs e)\<rparr>))
           else (Some (ErrServer e), initReadFlags r)))"

definition skipPadding :: "Reader \<Rightarrow> (int \<times> Reader) outcome" where
  "skipPadding r =
    (if cntPart r \<noteq> numPart r
     then (let pb = padBytes (sint (bufferLength (ph r)))
           in Returns (pb, r\<lparr>dec := dec_Skip pb (dec r)\<rparr>))
     else (let pb = uint (varPartLength (mh r)) - readBytes r
           in if pb < 0 then Panics (PanicVarPartLength (readBytes r) (uint (varPartLength (mh r))))
              else if pb > 0 then Returns (pb, r\<lparr>dec := dec_Skip pb (dec r)\<rparr>)
              else Returns (pb, r)))"

definition addPadding :: "Reader \<Rightarrow> Reader outcome" where
  "addPadding r =
    (case skipPadding r of
       Panics p \<Rightarrow> Panics p
     | Returns (pb, r') \<Rightarrow> Returns (r'\<lparr>readBytes := readBytes r' + pb\<rparr>))"

definition skipPart :: "Reader \<Rightarrow> (error option \<times> Reader) outcome" where
  "skipPart r =
    (let r1 = r\<lparr>dec := dec_Skip (sint (bufferLength (ph r))) (dec_ResetCnt (dec r))\<rparr>;
         r2 = trace (TraceSkip (partKind (ph r1))) r1;
         r3 = r2\<lparr>readBytes := readBytes r2 + cnt (dec r2)\<rparr>
     in case addPadding r3 of
          Panics p \<Rightarrow> Panics p
        | Returns r4 \<Rightarrow> Returns (None, r4))"

text \<open>
  \<^verbatim>\<open>readPart\<close>. \<open>payloadSkip\<close> is its second switch: the bytes the decoder left unread
  are skipped, and a decoder that read past the declared buffer length panics.
\<close>

definition payloadSkip :: "Reader \<Rightarrow> Reader outcome" where
  "payloadSkip r =
    (let c = cnt (dec r); bufferLen = sint (bufferLength (ph r))
     in if c < bufferLen then Returns (r\<lparr>dec := dec_Skip (bufferLen - c) (dec r)\<rparr>)
        else if c > bufferLen then Panics (PanicBufferLength c bufferLen)
        else Returns r)"

definition readPart :: "Env \<Rightarrow> Part \<Rightarrow> Reader \<Rightarrow> (error option \<times> Part \<times> Reader) outcome" where
  "readPart env part r =
    (case decodePart env part (ph r) (dec_ResetCnt (dec r)) of
       None \<Rightarrow> Panics (PanicDecoderNotFound part)
     | Some (e, part', d1) \<Rightarrow>
         (case payloadSkip (trace (TracePar part') (r\<lparr>dec := d1\<rparr>)) of
            Panics p \<Rightarrow> Panics p
          | Returns r2 \<Rightarrow>
              (case addPadding (r2\<lparr>readBytes := readBytes r2 + cnt (dec r2)\<rparr>) of
                 Panics p \<Rightarrow> Panics p
               | Returns r3 \<Rightarrow> Returns (e, part', r3))))"

definition setLast :: "Part \<Rightarrow> Reader \<Rightarrow> Reader" where
  "setLast part r =
    (case part of
       PHdbErrors x \<Rightarrow> r\<lparr>lastErrors := Some x\<rparr>
     | PRowsAffected x \<Rightarrow> r\<lparr>lastRowsAffected := Some x\<rparr>
     | POther t v \<Rightarrow> r)"

definition read :: "Env \<Rightarrow> Part \<Rightarrow> Reader \<Rightarrow> (error option \<times> Part \<times> Reader) outcome" where
  "read env part r =
    (case readPart env part r of
       Panics p \<Rightarrow> Panics p
     | Returns (e, part', r1) \<Rightarrow>
         Returns (e, part', setLast part' (if e \<noteq> None then r1\<lparr>err := e\<rparr> else r1)))"

text \<open>Reading into the cached object under \<open>k\<close>: the object is changed in place.\<close>

definition readCached :: "Env \<Rightarrow> PartKind \<Rightarrow> Part \<Rightarrow> Reader \<Rightarrow> (error option \<times> Reader) outcome" where
  "readCached env k part r =
    (case read env part r of
       Panics p \<Rightarrow> Panics p
     | Returns (e, part', r1) \<Rightarrow> Returns (e, r1\<lparr>partCache := (partCache r1)(k := Some part')\<rparr>))"

definition skip :: "Env \<Rightarrow> Reader \<Rightarrow> (error option \<times> Reader) outcome" where
  "skip env r =
    (let k = partKind (ph r) in
     if \<not> (protTrace r \<or> k = PkError \<or> k = PkRowsAffected) then skipPart r
     else case partCache r k of
        Some part \<Rightarrow> readCached env k part r
      | None \<Rightarrow>
          (case newGenPartReader k of
             None \<Rightarrow> skipPart r
           | Some part \<Rightarrow> readCached env k part (r\<lparr>partCache := (partCache r)(k := Some part)\<rparr>)))"

text \<open>
  The handler \<^verbatim>\<open>fn\<close> of \<^verbatim>\<open>IterateParts\<close>, by what it does with the part it is offered:
  it returns without calling \<^verbatim>\<open>read\<close> (\<open>Decline\<close>, with the error it returns), or it calls
  \<^verbatim>\<open>read\<close> once on a part of its own and returns an error computed from the one
  \<^verbatim>\<open>read\<close> gave (\<open>ReadInto\<close>; the usual handler returns it unchanged). \<open>None\<close> is the
  \<^verbatim>\<open>nil\<close> handler.
\<close>

datatype HandlerAct =
    Decline "error option"
  | ReadInto Part "error option \<Rightarrow> error option"

type_synonym handler = "PartKind \<Rightarrow> 8 word \<Rightarrow> HandlerAct"

text \<open>
  One round of the inner loop of \<^verbatim>\<open>IterateParts\<close>; an error is an early return.
  \<open>nextPart\<close> is the round up to \<^verbatim>\<open>r.cntPart++\<close>, \<open>handlePart\<close> the call of the
  handler and the skip of a part it did not read.
\<close>

definition nextPart :: "Env \<Rightarrow> Reader \<Rightarrow> error option \<times> Reader" where
  "nextPart env r =
    (case ph_decode env (dec r) of (e, h, d) \<Rightarrow>
       if e \<noteq> None then (e, r\<lparr>ph := h, dec := d\<rparr>)
       else
         (let r1 = r\<lparr>ph := h, dec := d, readBytes := readBytes r + partHeaderSize\<rparr>;
              r2 = trace (TraceParHdr (ph r1)) r1
          in (None, r2\<lparr>cntPart := cntPart r2 + 1\<rparr>)))"

definition handlePart :: "Env \<Rightarrow> handler option \<Rightarrow> Reader \<Rightarrow> (error option \<times> Reader) outcome" where
  "handlePart env fn r =
    (case fn of
       None \<Rightarrow> skip env r
     | Some f \<Rightarrow>
         (case f (partKind (ph r)) (partAttributes (ph r)) of
            Decline None \<Rightarrow> skip env r
          | Decline (Some x) \<Rightarrow> Returns (Some x, r)
          | ReadInto part k \<Rightarrow>
              (case read env part r of
                 Panics p \<Rightarrow> Panics p
               | Returns (e, part', r') \<Rightarrow> Returns (k e, r'))))"

definition iteratePart :: "Env \<Rightarrow> handler option \<Rightarrow> Reader \<Rightarrow> (error option \<times> Reader) outcome" where
  "iteratePart env fn r =
    (case nextPart env r of
       (Some e, r') \<Rightarrow> Returns (Some e, r')
     | (None, r') \<Rightarrow> handlePart env fn r')"

fun iterateParts :: "Env \<Rightarrow> handler option \<Rightarrow> nat \<Rightarrow> Reader \<Rightarrow> (error option \<times> Reader) outcome" where
  "iterateParts env fn 0 r = Returns (None, r)"
| "iterateParts env fn (Suc n) r =
     (case iteratePart env fn r of
        Panics p \<Rightarrow> Panics p
      | Returns (Some e, r') \<Rightarrow> Returns (Some e, r')
      | Returns (None, r') \<Rightarrow> iterateParts env fn n r')"

text \<open>One round of the outer loop: a segment header and its parts.\<close>

definition iterateSegment :: "Env \<Rightarrow> handler option \<Rightarrow> Reader \<Rightarrow> (error option \<times> Reader) outcome" where
  "iterateSegment env fn r =
    (case sh_decode env (dec r) of (e, h, d) \<Rightarrow>
       if e \<noteq> None then Returns (e, r\<lparr>sh := h, dec := d\<rparr>)
       else
         (let r1 = r\<lparr>sh := h, dec := d, readBytes := readBytes r + segmentHeaderSize\<rparr>;
              r2 = trace (TraceSegHdr (sh r1)) r1;
              r3 = r2\<lparr>numPart := sint (noOfParts (sh r2)), cntPart := 0\<rparr>
          in iterateParts env fn (nat (sint (noOfParts (sh r3)))) r3))"

fun iterateSegments :: "Env \<Rightarrow> handler option \<Rightarrow> nat \<Rightarrow> Reader \<Rightarrow> (error option \<times> Reader) outcome" where
  "iterateSegments env fn 0 r = Returns (None, r)"
| "iterateSegments env fn (Suc n) r =
     (case iterateSegment env fn r of
        Panics p \<Rightarrow> Panics p
      | Returns (Some e, r') \<Rightarrow> Returns (Some e, r')
      | Returns (None, r') \<Rightarrow> iterateSegments env fn n r')"

definition IterateParts :: "Env \<Rightarrow> handler option \<Rightarrow> Reader \<Rightarrow> (error option \<times> Reader) outcome" where
  "IterateParts env fn r =
    (case mh_decode env (dec r) of (e, h, d) \<Rightarrow>
       if e \<noteq> None then Returns (e, r\<lparr>mh := h, dec := d\<rparr>)
       else
         (let r1 = r\<lparr>mh := h, dec := d, readBytes := 0\<rparr>;
              r2 = trace (TraceMsgHdr (mh r1)) r1
          in case iterateSegments env fn (nat (sint (noOfSegm (mh r2)))) r2 of
               Panics p \<Rightarrow> Panics p
             | Returns (Some e', r3) \<Rightarrow> Returns (Some e', r3)
             | Returns (None, r3) \<Rightarrow> Returns (checkError r3)))"

definition SkipParts :: "Env \<Rightarrow> Reader \<Rightarrow> (error option \<times> Reader) outcome" where
  "SkipParts env r = IterateParts env None r"

text \<open>\<^verbatim>\<open>newReader\<close>: a reader over the byte stream \<open>bs\<close>, with zero headers and an empty cache.\<close>

definition newReader :: "8 word list \<Rightarrow> bool \<Rightarrow> Reader" where
  "newReader bs tr =
    \<lparr>protTrace = tr, logger = [],
     dec = \<lparr>rd = bs, cnt = 0, derr = None\<rparr>,
     mh = \<lparr>sessionID = 0, packetCount = 0, varPartLength = 0, varPartSize = 0, noOfSegm = 0\<rparr>,
     sh = \<lparr>segmentLength = 0, segmentOfs = 0, noOfParts = 0, segmentNo = 0, segmentKind = 0,
           messageType = 0, commit = False, functionCode = 0\<rparr>,
     ph = \<lparr>partKind = PkOther 0, partAttributes = 0, argumentCount = 0, bigArgumentCount = 0,
           bufferLength = 0, bufferSize = 0\<rparr>,
     readBytes = 0, numPart = 0, cntPart = 0,
     partCache = (\<lambda>k. None),
     lastErrors = None, lastRowsAffected = None, err = None\<rparr>"

subsection \<open>The writer\<close>

text \<open>
  \<^verbatim>\<open>bufio.Writer\<close>: \<open>buf\<close> holds the bytes encoded and not yet flushed, \<open>sent\<close> the bytes
  handed to the connection.
\<close>

record BufWriter =
  buf :: "8 word list"
  sent :: "8 word list"

text \<open>
  A part to write, by what its methods return: \<^verbatim>\<open>kind()\<close>, \<^verbatim>\<open>numArg()\<close>, \<^verbatim>\<open>size()\<close>,
  and the content \<^verbatim>\<open>encode\<close> writes.
\<close>

record WritablePart =
  wkind :: PartKind
  wnumArg :: int
  wsize :: int
  wdata :: payload

datatype WLogRecord =
    WTraceMsgHdr messageHeader
  | WTraceSegHdr segmentHeader
  | WTraceParHdr partHeader
  | WTracePar WritablePart

text \<open>
  The encoders and helpers of other files of the package that \<^verbatim>\<open>_write\<close> calls, as
  parameters: the header encoders, \<^verbatim>\<open>partHeader.setNumArg\<close>, the part encoder,
  \<^verbatim>\<open>bufio.Writer.Flush\<close>, \<^verbatim>\<open>MessageType.ClientInfoSupported\<close>, and the client-info part
  made of the session variables.
\<close>

record WEnv =
  mh_encode :: "messageHeader \<Rightarrow> BufWriter \<Rightarrow> error option \<times> BufWriter"
  sh_encode :: "segmentHeader \<Rightarrow> BufWriter \<Rightarrow> error option \<times> BufWriter"
  ph_encode :: "partHeader \<Rightarrow> BufWriter \<Rightarrow> error option \<times> BufWriter"
  setNumArg :: "int \<Rightarrow> partHeader \<Rightarrow> error option \<times> partHeader"
  part_encode :: "WritablePart \<Rightarrow> BufWriter \<Rightarrow> error option \<times> BufWriter"
  Flush :: "BufWriter \<Rightarrow> error option \<times> BufWriter"
  ClientInfoSupported :: "8 word \<Rightarrow> bool"
  clientInfo :: "(string \<times> string) list \<Rightarrow> WritablePart"

text \<open>Modelled from the spec: \<^verbatim>\<open>Encoder.Zeroes\<close> (in another file of the package) emits \<open>n\<close> zero bytes.\<close>

definition enc_Zeroes :: "int \<Rightarrow> BufWriter \<Rightarrow> BufWriter" where
  "enc_Zeroes n w = w\<lparr>buf := buf w @ replicate (nat n) 0\<rparr>"

record Writer =
  wProtTrace :: bool
  wLogger :: "WLogRecord list"
  wr :: BufWriter
  sv :: "(string \<times> string) list option"
  svSent :: bool
  wMh :: messageHeader
  wSh :: segmentHeader
  wPh :: partHeader

definition wtrace :: "WLogRecord \<Rightarrow> Writer \<Rightarrow> Writer" where
  "wtrace x w = (if wProtTrace w then w\<lparr>wLogger := wLogger w @ [x]\<rparr> else w)"

definition MaxUint32 :: int where
  "MaxUint32 = 4294967295"

definition MaxInt32 :: int where
  "MaxInt32 = 2147483647"

text \<open>The first step of \<^verbatim>\<open>_write\<close>: the session variables go first, once.\<close>

definition injectSv :: "WEnv \<Rightarrow> 8 word \<Rightarrow> Writer \<Rightarrow> bool" where
  "injectSv env mt w = (sv w \<noteq> None \<and> \<not> svSent w \<and> ClientInfoSupported env mt)"

definition withClientInfo :: "WEnv \<Rightarrow> 8 word \<Rightarrow> WritablePart list \<Rightarrow> Writer \<Rightarrow> WritablePart list" where
  "withClientInfo env mt parts w =
    (case sv w of
       Some vars \<Rightarrow> if injectSv env mt w then clientInfo env vars # parts else parts
     | None \<Rightarrow> parts)"

text \<open>The first loop of \<^verbatim>\<open>_write\<close>: \<^verbatim>\<open>size += int64(s + padBytes(s))\<close> for each part.\<close>

fun addSizes :: "int \<Rightarrow> WritablePart list \<Rightarrow> int" where
  "addSizes acc [] = acc"
| "addSizes acc (p # ps) = addSizes (acc + (wsize p + padBytes (wsize p))) ps"

definition messageSize :: "WritablePart list \<Rightarrow> int" where
  "messageSize parts = addSizes (segmentHeaderSize + int (length parts) * partHeaderSize) parts"

text \<open>The second loop of \<^verbatim>\<open>_write\<close>; \<open>bufferSize\<close> is the rolling capacity hint.\<close>

fun writeParts :: "WEnv \<Rightarrow> WritablePart list \<Rightarrow> int \<Rightarrow> Writer \<Rightarrow> error option \<times> Writer" where
  "writeParts env [] bufferSz w = (None, w)"
| "writeParts env (p # ps) bufferSz w =
     (let sz = wsize p; pad = padBytes sz in
      case setNumArg env (wnumArg p) ((wPh w)\<lparr>partKind := wkind p\<rparr>) of (e1, h1) \<Rightarrow>
        if e1 \<noteq> None then (e1, w\<lparr>wPh := h1\<rparr>)
        else
          (let h2 = h1\<lparr>bufferLength := word_of_int sz, bufferSize := word_of_int bufferSz\<rparr> in
           case ph_encode env h2 (wr w) of (e2, b2) \<Rightarrow>
             if e2 \<noteq> None then (e2, w\<lparr>wPh := h2, wr := b2\<rparr>)
             else
               (let w2 = wtrace (WTraceParHdr h2) (w\<lparr>wPh := h2, wr := b2\<rparr>) in
                case part_encode env p (wr w2) of (e3, b3) \<Rightarrow>
                  if e3 \<noteq> None then (e3, w2\<lparr>wr := b3\<rparr>)
                  else
                    (let w3 = wtrace (WTracePar p) (w2\<lparr>wr := b3\<rparr>);
                         w4 = w3\<lparr>wr := enc_Zeroes pad (wr w3)\<rparr>
                     in writeParts env ps (bufferSz - (partHeaderSize + sz + pad)) w4))))"

text \<open>
  \<^verbatim>\<open>Writer._write\<close>. \<open>skRequest\<close> is the segment kind of a request (a constant of
  another file of the package; the protocol's value is 1).
\<close>

definition skRequest :: "8 word" where
  "skRequest = 1"

definition uwrite ::
  "WEnv \<Rightarrow> 64 word \<Rightarrow> 8 word \<Rightarrow> bool \<Rightarrow> WritablePart list \<Rightarrow> Writer \<Rightarrow> error option \<times> Writer" where
  "uwrite env sid mt cmt parts0 w0 =
    (let parts = withClientInfo env mt parts0 w0;
         w = (if injectSv env mt w0 then w0\<lparr>svSent := True\<rparr> else w0);
         numPart = int (length parts);
         sz = messageSize parts
     in if sz > MaxUint32 then (Some (ErrMessageHeaderSize sz), w)
        else
          (let bufferSz = sz;
               h = (wMh w)\<lparr>sessionID := sid, varPartLength := word_of_int sz,
                          varPartSize := word_of_int bufferSz, noOfSegm := 1\<rparr>
           in case mh_encode env h (wr w) of (e1, b1) \<Rightarrow>
                if e1 \<noteq> None then (e1, w\<lparr>wMh := h, wr := b1\<rparr>)
                else
                  (let w1 = wtrace (WTraceMsgHdr h) (w\<lparr>wMh := h, wr := b1\<rparr>) in
                   if sz > MaxInt32 then (Some (ErrPartHeaderSize sz), w1)
                   else
                     (let s = (wSh w1)\<lparr>messageType := mt, commit := cmt, segmentKind := skRequest,
                                      segmentLength := word_of_int sz, segmentOfs := 0,
                                      noOfParts := word_of_int numPart, segmentNo := 1\<rparr>
                      in case sh_encode env s (wr w1) of (e2, b2) \<Rightarrow>
                           if e2 \<noteq> None then (e2, w1\<lparr>wSh := s, wr := b2\<rparr>)
                           else
                             (let w2 = wtrace (WTraceSegHdr s) (w1\<lparr>wSh := s, wr := b2\<rparr>) in
                              case writeParts env parts (bufferSz - segmentHeaderSize) w2 of
                                (e3, w3) \<Rightarrow>
                                  if e3 \<noteq> None then (e3, w3)
                                  else (case Flush env (wr w3) of
                                          (e4, b4) \<Rightarrow> (e4, w3\<lparr>wr := b4\<rparr>)))))))"

text \<open>\<^verbatim>\<open>Writer.Write\<close>.\<close>

definition Write ::
  "WEnv \<Rightarrow> 64 word \<Rightarrow> 8 word \<Rightarrow> bool \<Rightarrow> WritablePart list \<Rightarrow> Writer \<Rightarrow> error option \<times> Writer" where
  "Write env sid mt cmt parts w =
    (case uwrite env sid mt cmt parts w of
       (Some e, w') \<Rightarrow> (errors_Join [Some e, Some ErrBadConn], w')
     | (None, w') \<Rightarrow> (None, w'))"

subsection \<open>An instance of the codecs on the wire\<close>

text \<open>
  Modelled from the spec: the header codecs over bytes, after the layouts of its
  section 6 (little-endian; message header 32 bytes, segment header 13 bytes, part
  header 16 bytes), on the decoder's sticky error: a header decoder returns the
  decoder's error. The wire values of the part kinds and the layouts of the part
  payloads are not in the spec; this instance takes 3 for a command, 6 for an error part
  and 12 for rows affected, two bytes (level, code) for each error, and four bytes for
  each row count. It is used to run the reader and the writer on concrete bytes.
\<close>

definition dec_Bytes :: "nat \<Rightarrow> Decoder \<Rightarrow> 8 word list \<times> Decoder" where
  "dec_Bytes n d =
    (if derr d \<noteq> None then (replicate n 0, d)
     else if n \<le> length (rd d)
     then (take n (rd d), d\<lparr>rd := drop n (rd d), cnt := cnt d + int n\<rparr>)
     else (replicate n 0,
           d\<lparr>rd := [], cnt := cnt d + int (length (rd d)), derr := Some ErrUnexpectedEOF\<rparr>))"

fun le_uint :: "8 word list \<Rightarrow> int" where
  "le_uint [] = 0"
| "le_uint (b # bs) = uint b + 256 * le_uint bs"

definition field :: "nat \<Rightarrow> nat \<Rightarrow> 8 word list \<Rightarrow> int" where
  "field at n bs = le_uint (take n (drop at bs))"

fun le_bytes :: "nat \<Rightarrow> int \<Rightarrow> 8 word list" where
  "le_bytes 0 v = []"
| "le_bytes (Suc n) v = word_of_int (v mod 256) # le_bytes n (v div 256)"

definition wire_mh_decode :: "Decoder \<Rightarrow> error option \<times> messageHeader \<times> Decoder" where
  "wire_mh_decode d =
    (case dec_Bytes 32 d of (bs, d') \<Rightarrow>
       (derr d',
        \<lparr>sessionID = word_of_int (field 0 8 bs), packetCount = word_of_int (field 8 4 bs),
         varPartLength = word_of_int (field 12 4 bs), varPartSize = word_of_int (field 16 4 bs),
         noOfSegm = word_of_int (field 20 2 bs)\<rparr>,
        d'))"

definition wire_sh_decode :: "Decoder \<Rightarrow> error option \<times> segmentHeader \<times> Decoder" where
  "wire_sh_decode d =
    (case dec_Bytes 13 d of (bs, d') \<Rightarrow>
       (derr d',
        \<lparr>segmentLength = word_of_int (field 0 4 bs), segmentOfs = word_of_int (field 4 4 bs),
         noOfParts = word_of_int (field 8 2 bs), segmentNo = word_of_int (field 10 2 bs),
         segmentKind = word_of_int (field 12 1 bs), messageType = 0, commit = False,
         functionCode = 0\<rparr>,
        d'))"

definition wire_kind :: "8 word \<Rightarrow> PartKind" where
  "wire_kind b = (if b = 3 then PkCommand else if b = 6 then PkError
                  else if b = 12 then PkRowsAffected else PkOther b)"

definition wire_ph_decode :: "Decoder \<Rightarrow> error option \<times> partHeader \<times> Decoder" where
  "wire_ph_decode d =
    (case dec_Bytes 16 d of (bs, d') \<Rightarrow>
       (derr d',
        \<lparr>partKind = wire_kind (word_of_int (field 0 1 bs)),
         partAttributes = word_of_int (field 1 1 bs),
         argumentCount = word_of_int (field 2 2 bs), bigArgumentCount = word_of_int (field 4 4 bs),
         bufferLength = word_of_int (field 8 4 bs), bufferSize = word_of_int (field 12 4 bs)\<rparr>,
        d'))"

definition wire_level :: "8 word \<Rightarrow> ErrorLevel" where
  "wire_level b = (if b = 0 then LevelWarning else if b = 1 then LevelError else LevelFatalError)"

fun wire_errs :: "nat \<Rightarrow> Decoder \<Rightarrow> HdbError list \<times> Decoder" where
  "wire_errs 0 d = ([], d)"
| "wire_errs (Suc n) d =
     (case dec_Bytes 2 d of (bs, d1) \<Rightarrow>
        case wire_errs n d1 of (es, d2) \<Rightarrow>
          (\<lparr>errorLevel = wire_level (word_of_int (field 0 1 bs)), errorCode = field 1 1 bs,
            errorText = [], stmtNo = None\<rparr> # es, d2))"

definition wire_decodeErrors :: "HdbErrors \<Rightarrow> Decoder \<Rightarrow> int \<Rightarrow> error option \<times> HdbErrors \<times> Decoder" where
  "wire_decodeErrors e d n =
    (case wire_errs (nat n) d of (es, d') \<Rightarrow>
       (derr d', \<lparr>errs = es, onlyWarnings = list_all (\<lambda>x. errorLevel x = LevelWarning) es\<rparr>, d'))"

fun wire_rows :: "nat \<Rightarrow> Decoder \<Rightarrow> int list \<times> Decoder" where
  "wire_rows 0 d = ([], d)"
| "wire_rows (Suc n) d =
     (case dec_Bytes 4 d of (bs, d1) \<Rightarrow>
        case wire_rows n d1 of (xs, d2) \<Rightarrow> (sint (word_of_int (le_uint bs) :: 32 word) # xs, d2))"

definition wire_decodeRows :: "RowsAffected \<Rightarrow> Decoder \<Rightarrow> int \<Rightarrow> error option \<times> RowsAffected \<times> Decoder" where
  "wire_decodeRows ra d n =
    (case wire_rows (nat n) d of (xs, d') \<Rightarrow> (derr d', ra\<lparr>rows := xs\<rparr>, d'))"

definition wire_decodeN :: "PartType \<Rightarrow> payload \<Rightarrow> Decoder \<Rightarrow> int \<Rightarrow> error option \<times> payload \<times> Decoder" where
  "wire_decodeN t v d n = (case dec_Bytes (nat n) d of (bs, d') \<Rightarrow> (derr d', bs, d'))"

definition wire :: Env where
  "wire =
    \<lparr>mh_decode = wire_mh_decode, sh_decode = wire_sh_decode, ph_decode = wire_ph_decode,
     decodeErrors = wire_decodeErrors, decodeRows = wire_decodeRows,
     decodeDef = (\<lambda>t v d. wire_decodeN t v d 0),
     decodeNumArg = wire_decodeN, decodeBufLen = wire_decodeN\<rparr>"

definition put :: "8 word list \<Rightarrow> BufWriter \<Rightarrow> error option \<times> BufWriter" where
  "put bs w = (None, w\<lparr>buf := buf w @ bs\<rparr>)"

definition wire_mh_encode :: "messageHeader \<Rightarrow> BufWriter \<Rightarrow> error option \<times> BufWriter" where
  "wire_mh_encode h =
    put (le_bytes 8 (uint (sessionID h)) @ le_bytes 4 (uint (packetCount h))
         @ le_bytes 4 (uint (varPartLength h)) @ le_bytes 4 (uint (varPartSize h))
         @ le_bytes 2 (uint (noOfSegm h)) @ replicate 10 0)"

definition wire_sh_encode :: "segmentHeader \<Rightarrow> BufWriter \<Rightarrow> error option \<times> BufWriter" where
  "wire_sh_encode h =
    put (le_bytes 4 (uint (segmentLength h)) @ le_bytes 4 (uint (segmentOfs h))
         @ le_bytes 2 (uint (noOfParts h)) @ le_bytes 2 (uint (segmentNo h))
         @ [segmentKind h])"

definition wire_kind_byte :: "PartKind \<Rightarrow> 8 word" where
  "wire_kind_byte k =
    (case k of PkCommand \<Rightarrow> 3 | PkError \<Rightarrow> 6 | PkRowsAffected \<Rightarrow> 12 | PkOther b \<Rightarrow> b | _ \<Rightarrow> 0)"

definition wire_ph_encode :: "partHeader \<Rightarrow> BufWriter \<Rightarrow> error option \<times> BufWriter" where
  "wire_ph_encode h =
    put ([wire_kind_byte (partKind h), partAttributes h]
         @ le_bytes 2 (uint (argumentCount h)) @ le_bytes 4 (uint (bigArgumentCount h))
         @ le_bytes 4 (uint (bufferLength h)) @ le_bytes 4 (uint (bufferSize h)))"

definition wire_setNumArg :: "int \<Rightarrow> partHeader \<Rightarrow> error option \<times> partHeader" where
  "wire_setNumArg n h =
    (if n \<le> 32767 then (None, h\<lparr>argumentCount := word_of_int n, bigArgumentCount := 0\<rparr>)
     else if n \<le> MaxInt32 then (None, h\<lparr>argumentCount := -1, bigArgumentCount := word_of_int n\<rparr>)
     else (Some (ErrOther 0), h))"

definition wire_flush :: "BufWriter \<Rightarrow> error option \<times> BufWriter" where
  "wire_flush w = (None, \<lparr>buf = [], sent = sent w @ buf w\<rparr>)"

definition wire_out :: WEnv where
  "wire_out =
    \<lparr>mh_encode = wire_mh_encode, sh_encode = wire_sh_encode, ph_encode = wire_ph_encode,
     setNumArg = wire_setNumArg, part_encode = (\<lambda>p. put (wdata p)), Flush = wire_flush,
     ClientInfoSupported = (\<lambda>mt. mt = 2),
     clientInfo = (\<lambda>vars. \<lparr>wkind = PkClientInfo, wnumArg = int (length vars), wsize = 0, wdata = []\<rparr>)\<rparr>"

definition newWriter :: "(string \<times> string) list option \<Rightarrow> Writer" where
  "newWriter vars =
    \<lparr>wProtTrace = False, wLogger = [], wr = \<lparr>buf = [], sent = []\<rparr>, sv = vars, svSent = False,
     wMh = \<lparr>sessionID = 0, packetCount = 0, varPartLength = 0, varPartSize = 0, noOfSegm = 0\<rparr>,
     wSh = \<lparr>segmentLength = 0, segmentOfs = 0, noOfParts = 0, segmentNo = 0, segmentKind = 0,
            messageType = 0, commit = False, functionCode = 0\<rparr>,
     wPh = \<lparr>partKind = PkOther 0, partAttributes = 0, argumentCount = 0, bigArgumentCount = 0,
            bufferLength = 0, bufferSize = 0\<rparr>\<rparr>"

subsection \<open>Values used in the examples\<close>

text \<open>The message header \<^verbatim>\<open>_write\<close> fills in for a message of \<open>sz\<close> bytes.\<close>

definition newHeader :: "64 word \<Rightarrow> int \<Rightarrow> Writer \<Rightarrow> messageHeader" where
  "newHeader sid sz w = (wMh w)\<lparr>sessionID := sid, varPartLength := word_of_int sz,
                          varPartSize := word_of_int sz, noOfSegm := 1\<rparr>"

text \<open>A part of 4 GiB, and a command of three bytes.\<close>

definition bigPart :: WritablePart where
  "bigPart = \<lparr>wkind = PkCommand, wnumArg = 1, wsize = 4294967296, wdata = []\<rparr>"


text \<open>A part of 2 GiB: the message exceeds the signed 32-bit range, not the unsigned one.\<close>

definition hugePart :: WritablePart where
  "hugePart = \<lparr>wkind = PkCommand, wnumArg = 1, wsize = 2147483648, wdata = []\<rparr>"

text \<open>
  The positions of the failed statements in a rows-affected vector, counted from \<open>i\<close>:
  the statement indices the fusion hands out, in order.
\<close>

fun failedIdx :: "int list \<Rightarrow> nat \<Rightarrow> nat list" where
  "failedIdx [] i = []"
| "failedIdx (x # xs) i =
     (if x = RaExecutionFailed then i # failedIdx xs (Suc i) else failedIdx xs (Suc i))"

text \<open>
  The reader as \<^verbatim>\<open>IterateParts\<close> hands it to \<^verbatim>\<open>checkError\<close>: \<open>None\<close> when the call
  returns early or panics.
\<close>

definition beforeCheck :: "Env \<Rightarrow> handler option \<Rightarrow> Reader \<Rightarrow> Reader option" where
  "beforeCheck env fn r =
    (case mh_decode env (dec r) of (e, h, d) \<Rightarrow>
       if e \<noteq> None then None
       else (case iterateSegments env fn (nat (sint (noOfSegm h)))
                    (trace (TraceMsgHdr h) (r\<lparr>mh := h, dec := d, readBytes := 0\<rparr>)) of
               Returns (None, r3) \<Rightarrow> Some r3
             | _ \<Rightarrow> None))"

text \<open>Modelled from the spec: an error of severity warning.\<close>

definition isWarning :: "HdbError \<Rightarrow> bool" where
  "isWarning x = (errorLevel x = LevelWarning)"

text \<open>
  The reply of a batch with a failing statement: rows affected \<open>[1, RaExecutionFailed, 2]\<close>
  at offset 0, and one error.
\<close>

definition e3Errors :: HdbErrors where
  "e3Errors = \<lparr>errs = [\<lparr>errorLevel = LevelError, errorCode = 301, errorText = ''unique constraint violated'', stmtNo = None\<rparr>],
               onlyWarnings = False\<rparr>"

definition e3Rows :: RowsAffected where
  "e3Rows = \<lparr>Ofs = 0, rows = [1, RaExecutionFailed, 2]\<rparr>"

definition e3Reader :: Reader where
  "e3Reader = (newReader [] False)\<lparr>lastErrors := Some e3Errors, lastRowsAffected := Some e3Rows\<rparr>"

definition result :: "'a outcome \<Rightarrow> 'a option" where
  "result x = (case x of Panics p \<Rightarrow> None | Returns a \<Rightarrow> Some a)"

text \<open>
  Headers on the wire, in the layout of the instance: a message header announcing
  \<open>vpl\<close> bytes and \<open>nseg\<close> segments, a reply segment header with \<open>nparts\<close> parts, a part
  header of kind byte \<open>k\<close>.
\<close>

definition mhBytes :: "int \<Rightarrow> int \<Rightarrow> 8 word list" where
  "mhBytes vpl nseg = replicate 12 0 @ le_bytes 4 vpl @ le_bytes 4 vpl @ le_bytes 2 nseg @ replicate 10 0"

definition shBytes :: "int \<Rightarrow> int \<Rightarrow> 8 word list" where
  "shBytes len nparts = le_bytes 4 len @ le_bytes 4 0 @ le_bytes 2 nparts @ le_bytes 2 1 @ [2]"

definition phBytes :: "8 word \<Rightarrow> int \<Rightarrow> int \<Rightarrow> 8 word list" where
  "phBytes k numarg buflen = [k, 0] @ le_bytes 2 numarg @ le_bytes 4 0 @ le_bytes 4 buflen @ le_bytes 4 0"

text \<open>
  Replies on the wire: an error part of two warnings; rows affected \<open>[1, -3, 2]\<close> (padded
  to 16 bytes) followed by an error part of one error; an error part of a warning and an
  error.
\<close>

definition warnReply :: "8 word list" where
  "warnReply = mhBytes 33 1 @ shBytes 33 1 @ phBytes 6 2 4 @ [0, 10, 0, 11]"

definition e3Reply :: "8 word list" where
  "e3Reply = mhBytes 63 1 @ shBytes 63 2
             @ phBytes 12 3 12 @ [1, 0, 0, 0, 253, 255, 255, 255, 2, 0, 0, 0] @ replicate 4 0
             @ phBytes 6 1 2 @ [1, 45]"

definition errReply :: "8 word list" where
  "errReply = mhBytes 33 1 @ shBytes 33 1 @ phBytes 6 2 4 @ [0, 10, 1, 11]"

definition warn10 :: HdbError where
  "warn10 = \<lparr>errorLevel = LevelWarning, errorCode = 10, errorText = [], stmtNo = None\<rparr>"

definition warn11 :: HdbError where
  "warn11 = \<lparr>errorLevel = LevelWarning, errorCode = 11, errorText = [], stmtNo = None\<rparr>"

definition err11 :: HdbError where
  "err11 = \<lparr>errorLevel = LevelError, errorCode = 11, errorText = [], stmtNo = None\<rparr>"

text \<open>
  A reader that has just decoded the header of a part (kind byte \<open>k\<close>, \<open>numarg\<close>
  arguments, declared buffer length \<open>buflen\<close>) in front of the bytes \<open>bs\<close>.
\<close>

definition partReader :: "8 word \<Rightarrow> int \<Rightarrow> int \<Rightarrow> 8 word list \<Rightarrow> Reader" where
  "partReader k numarg buflen bs = snd (nextPart wire (newReader (phBytes k numarg buflen @ bs) False))"

text \<open>
  An error part of one error (two bytes) declared with five bytes, and one of two errors
  (four bytes) declared with three.
\<close>

definition shortPart :: Reader where
  "shortPart = partReader 6 1 5 [1, 45, 9, 9, 9, 7, 7, 7]"

definition overPart :: Reader where
  "overPart = partReader 6 2 3 [1, 45, 0, 9, 9, 7, 7, 7]"

text \<open>
  What the part cache of a reader can hold: without protocol trace, only decoders of error
  and rows-affected parts.
\<close>

definition cacheInv :: "Reader \<Rightarrow> bool" where
  "cacheInv r =
    (protTrace r \<or> (\<forall>k. partCache r k \<noteq> None \<longrightarrow> k = PkError \<or> k = PkRowsAffected))"

text \<open>
  A reader that has just decoded the header of a command part of three bytes, with and
  without protocol trace.
\<close>

definition tracedPart :: Reader where
  "tracedPart = snd (nextPart wire (newReader (phBytes 3 1 3 @ [1, 2, 3] @ replicate 5 0) True))"

definition untracedPart :: Reader where
  "untracedPart = snd (nextPart wire (newReader (phBytes 3 1 3 @ [1, 2, 3] @ replicate 5 0) False))"

text \<open>
  A handler that returns an error when it is offered a rows-affected part and declines
  every other part; a reply of an error part followed by a rows-affected part; and the same
  reply cut off after its first part.
\<close>

definition failOnRows :: handler where
  "failOnRows k a = (if k = PkRowsAffected then Decline (Some (ErrOther 1)) else Decline None)"

definition errThenRows :: "8 word list" where
  "errThenRows = mhBytes 65 1 @ shBytes 65 2
                 @ phBytes 6 1 2 @ [1, 45] @ replicate 6 0
                 @ phBytes 12 3 12 @ [1, 0, 0, 0, 253, 255, 255, 255, 2, 0, 0, 0]"

definition truncated :: "8 word list" where
  "truncated = mhBytes 65 1 @ shBytes 65 2 @ phBytes 6 1 2 @ [1, 45] @ replicate 6 0"

text \<open>The state \<^verbatim>\<open>checkError\<close> leaves: no last errors, no last rows affected, no errors kept.\<close>

definition fusionReset :: "Reader \<Rightarrow> bool" where
  "fusionReset r =
    (lastErrors r = None \<and> lastRowsAffected r = None \<and> err r = None \<and> derr (dec r) = None)"

text \<open>Every decoder in the part cache is of the kind it is cached under.\<close>

definition cacheKinds :: "Reader \<Rightarrow> bool" where
  "cacheKinds r = (\<forall>k p. partCache r k = Some p \<longrightarrow> kind p = k)"

text \<open>A handler that declines every part.\<close>

definition declineAll :: handler where
  "declineAll k a = Decline None"




section \<open>Properties\<close>

subsection \<open>The errors of the writer and the size of a message\<close>


lemma errors_Join_pair: "errors_Join [Some e, Some ErrBadConn] = Some (ErrJoin [e, ErrBadConn])"
  by (simp add: errors_Join_def List.map_filter_simps)

text \<open>
  C10. Every error \<^verbatim>\<open>Writer.Write\<close> returns is joined with \<^verbatim>\<open>driver.ErrBadConn\<close>:
  \<^verbatim>\<open>errors.Is(err, driver.ErrBadConn)\<close> holds for it, whether it comes from an encoder, the
  flush or the local size checks.
\<close>

theorem Write_error_is_ErrBadConn:
  "fst (Write env sid mt cmt parts w) = Some e \<Longrightarrow> errors_Is e ErrBadConn"
  by (auto simp: Write_def errors_Join_pair split: prod.splits option.splits)


lemma padBytes_nonneg:
  assumes "0 \<le> s"
  shows "padBytes s = (8 - s mod 8) mod 8"
proof -
  have r: "go_rem s 8 = s mod 8"
    using assms by (simp add: go_rem_def sgn_if)
  have "padBytes s = (if go_rem s 8 \<noteq> 0 then 8 - go_rem s 8 else 0)"
    by (simp only: padBytes_def Let_def padding_def)
  also have "\<dots> = (if s mod 8 \<noteq> 0 then 8 - s mod 8 else 0)"
    by (simp only: r)
  also have "\<dots> = (8 - s mod 8) mod 8"
    by presburger
  finally show ?thesis .
qed


lemma padBytes_range: "0 \<le> s \<Longrightarrow> 0 \<le> padBytes s \<and> padBytes s < 8"
  by (simp add: padBytes_nonneg)



lemma wtrace_wMh [simp]: "wMh (wtrace x w) = wMh w"
  by (simp add: wtrace_def)

lemma wtrace_wr [simp]: "wr (wtrace x w) = wr w"
  by (simp add: wtrace_def)








lemmas wire_out_simps =
  uwrite_def withClientInfo_def injectSv_def newWriter_def messageSize_def
  segmentHeaderSize_def partHeaderSize_def padBytes_def go_rem_def padding_def MaxUint32_def
  MaxInt32_def Let_def wire_out_def wtrace_def put_def wire_mh_encode_def wire_sh_encode_def
  wire_ph_encode_def wire_setNumArg_def wire_flush_def enc_Zeroes_def skRequest_def
  wire_kind_byte_def

theorem Write_error_is_ErrBadConn_witness:
  "fst (Write wire_out 0 2 False [bigPart] (newWriter None))
     = Some (ErrJoin [ErrMessageHeaderSize 4294967325, ErrBadConn])
   \<and> errors_Is (ErrJoin [ErrMessageHeaderSize 4294967325, ErrBadConn]) ErrBadConn"
proof -
  have h: "fst (Write wire_out 0 2 False [bigPart] (newWriter None))
     = Some (ErrJoin [ErrMessageHeaderSize 4294967325, ErrBadConn])"
    by (simp add: Write_def errors_Join_pair bigPart_def wire_out_simps)
  from Write_error_is_ErrBadConn [OF h] h show ?thesis by simp
qed


subsection \<open>The size checks of the writer\<close>

text \<open>
  C6, as amended. \<^verbatim>\<open>_write\<close> rejects a message whose size exceeds \<open>MaxUint32\<close>
  before anything is encoded: the buffered writer is untouched. A message whose size
  exceeds \<open>MaxInt32\<close> but not \<open>MaxUint32\<close> is rejected only after the message header has
  been encoded (when that encoding succeeds): the writer then holds exactly the output of
  the message header encoder, and neither the segment header nor a part is encoded.
\<close>

theorem uwrite_size_checks:
  "(MaxUint32 < messageSize (withClientInfo env mt parts w) \<longrightarrow>
      fst (uwrite env sid mt cmt parts w)
        = Some (ErrMessageHeaderSize (messageSize (withClientInfo env mt parts w)))
      \<and> wr (snd (uwrite env sid mt cmt parts w)) = wr w)
   \<and> (MaxInt32 < messageSize (withClientInfo env mt parts w)
      \<and> messageSize (withClientInfo env mt parts w) \<le> MaxUint32
      \<and> fst (mh_encode env (newHeader sid (messageSize (withClientInfo env mt parts w)) w) (wr w)) = None \<longrightarrow>
      fst (uwrite env sid mt cmt parts w)
        = Some (ErrPartHeaderSize (messageSize (withClientInfo env mt parts w)))
      \<and> wr (snd (uwrite env sid mt cmt parts w))
        = snd (mh_encode env (newHeader sid (messageSize (withClientInfo env mt parts w)) w) (wr w)))"
  unfolding uwrite_def newHeader_def Let_def
  by (auto simp: wtrace_def split: prod.splits)

text \<open>
  C6 as stated fails: for one part of 2 GiB the message size is 2147483677, above
  \<open>MaxInt32\<close>; \<^verbatim>\<open>_write\<close> returns the size error, and the 32 bytes of the message
  header are in the buffer of the writer.
\<close>

theorem uwrite_header_before_reject:
  "fst (uwrite wire_out 0 2 False [hugePart] (newWriter None)) = Some (ErrPartHeaderSize 2147483677)
   \<and> buf (wr (snd (uwrite wire_out 0 2 False [hugePart] (newWriter None))))
       = [0, 0, 0, 0, 0, 0, 0, 0, 0, 0, 0, 0, 29, 0, 0, 128, 29, 0, 0, 128, 1, 0,
          0, 0, 0, 0, 0, 0, 0, 0, 0, 0]"
  by code_simp

theorem uwrite_size_checks_witness:
  "MaxUint32 < messageSize (withClientInfo wire_out 2 [bigPart] (newWriter None))
   \<and> fst (uwrite wire_out 0 2 False [bigPart] (newWriter None)) = Some (ErrMessageHeaderSize 4294967325)
   \<and> buf (wr (snd (uwrite wire_out 0 2 False [bigPart] (newWriter None)))) = []
   \<and> MaxInt32 < messageSize (withClientInfo wire_out 2 [hugePart] (newWriter None))
   \<and> messageSize (withClientInfo wire_out 2 [hugePart] (newWriter None)) \<le> MaxUint32
   \<and> fst (uwrite wire_out 0 2 False [hugePart] (newWriter None)) = Some (ErrPartHeaderSize 2147483677)
   \<and> length (buf (wr (snd (uwrite wire_out 0 2 False [hugePart] (newWriter None))))) = 32"
proof -
  have a: "messageSize (withClientInfo wire_out 2 [bigPart] (newWriter None)) = 4294967325"
    by code_simp
  have b: "messageSize (withClientInfo wire_out 2 [hugePart] (newWriter None)) = 2147483677"
    by code_simp
  have c: "fst (mh_encode wire_out (newHeader 0 2147483677 (newWriter None)) (wr (newWriter None))) = None"
    by code_simp
  have d: "length (buf (snd (mh_encode wire_out (newHeader 0 2147483677 (newWriter None)) (wr (newWriter None))))) = 32"
    by code_simp
  have e: "buf (wr (newWriter None)) = []"
    by (simp add: newWriter_def)
  from uwrite_size_checks [of wire_out 2 "[bigPart]" "newWriter None" 0 False]
       uwrite_size_checks [of wire_out 2 "[hugePart]" "newWriter None" 0 False]
  show ?thesis
    by (simp add: a b c d e MaxUint32_def MaxInt32_def)
qed

subsection \<open>Fusion of errors and rows affected\<close>

lemma failedIdx_shift: "failedIdx xs (Suc i) = map Suc (failedIdx xs i)"
  by (induction xs arbitrary: i) auto

lemma failedIdx_filter:
  "failedIdx xs 0 = filter (\<lambda>i. xs ! i = RaExecutionFailed) [0..<length xs]"
proof (induction xs)
  case Nil
  then show ?case by simp
next
  case (Cons x xs)
  have u: "[0..<length (x # xs)] = 0 # map Suc [0..<length xs]"
    by (simp add: upt_conv_Cons map_Suc_upt del: upt_Suc)
  show ?case
    unfolding u using Cons
    by (simp add: failedIdx_shift filter_map comp_def)
qed

lemma length_setStmtNo [simp]: "length (errs (setStmtNo j n e)) = length (errs e)"
  by (simp add: setStmtNo_def)

lemma onlyWarnings_setStmtNo [simp]: "onlyWarnings (setStmtNo j n e) = onlyWarnings e"
  by (simp add: setStmtNo_def)

lemma nth_setStmtNo:
  "k < length (errs e) \<Longrightarrow>
   errs (setStmtNo j n e) ! k = (if k = j then (errs e ! k)\<lparr>stmtNo := Some n\<rparr> else errs e ! k)"
  by (simp add: setStmtNo_def nth_list_update)

lemma length_linkStmts [simp]: "length (errs (linkStmts ofs xs i j e)) = length (errs e)"
  by (induction xs arbitrary: i j e) auto

lemma onlyWarnings_linkStmts [simp]: "onlyWarnings (linkStmts ofs xs i j e) = onlyWarnings e"
  by (induction xs arbitrary: i j e) auto

lemma nth_linkStmts:
  "k < length (errs e) \<Longrightarrow>
   errs (linkStmts ofs xs i j e) ! k =
     (if j \<le> k \<and> k - j < length (failedIdx xs i)
      then (errs e ! k)\<lparr>stmtNo := Some (ofs + int (failedIdx xs i ! (k - j)))\<rparr>
      else errs e ! k)"
proof (induction xs arbitrary: i j e)
  case Nil
  then show ?case by simp
next
  case (Cons x xs)
  show ?case
  proof (cases "x = RaExecutionFailed")
    case False
    with Cons show ?thesis by simp
  next
    case True
    have len: "k < length (errs (setStmtNo j (ofs + int i) e))"
      using Cons.prems by simp
    show ?thesis
    proof (cases "k = j")
      case kj: True
      then show ?thesis
        using True Cons.prems Cons.IH [OF len, of "Suc i" "Suc j"]
        by (simp add: nth_setStmtNo)
    next
      case kj: False
      then show ?thesis
        using True Cons.prems Cons.IH [OF len, of "Suc i" "Suc j"]
        by (auto simp: nth_setStmtNo Suc_diff_le nth_Cons')
    qed
  qed
qed

lemma severity_linkStmts:
  "map errorLevel (errs (linkStmts ofs xs i j e)) = map errorLevel (errs e)"
  by (rule nth_equalityI) (auto simp: nth_linkStmts)

lemma trace_fields [simp]:
  "protTrace (trace x r) = protTrace r" "dec (trace x r) = dec r" "mh (trace x r) = mh r"
  "sh (trace x r) = sh r" "ph (trace x r) = ph r" "readBytes (trace x r) = readBytes r"
  "numPart (trace x r) = numPart r" "cntPart (trace x r) = cntPart r"
  "partCache (trace x r) = partCache r" "lastErrors (trace x r) = lastErrors r"
  "lastRowsAffected (trace x r) = lastRowsAffected r" "err (trace x r) = err r"
  by (simp_all add: trace_def)

lemma IterateParts_beforeCheck:
  "beforeCheck env fn r0 = Some r \<Longrightarrow> IterateParts env fn r0 = Returns (checkError r)"
  unfolding beforeCheck_def IterateParts_def Let_def
  by (auto split: prod.splits if_splits outcome.splits option.splits)

text \<open>
  C4. When \<^verbatim>\<open>checkError\<close> finds an errors part and a rows-affected part (and no read
  error), it walks the rows in order and gives the \<open>j\<close>-th error the statement index
  \<open>Ofs + i\<close>, where \<open>i\<close> is the position of the \<open>j\<close>-th entry equal to
  \<open>RaExecutionFailed\<close>; the other errors are unchanged, and the fused list is returned as
  the error unless it holds only warnings.
\<close>

theorem checkError_links_statements:
  assumes "err r = None" and "derr (dec r) = None"
    and "lastErrors r = Some e" and "lastRowsAffected r = Some ra"
    and "failed = filter (\<lambda>i. rows ra ! i = RaExecutionFailed) [0..<length (rows ra)]"
  shows "length (errs (fuse (Some ra) e)) = length (errs e)
     \<and> (\<forall>j<length (errs e).
           errs (fuse (Some ra) e) ! j =
             (if j < length failed
              then (errs e ! j)\<lparr>stmtNo := Some (Ofs ra + int (failed ! j))\<rparr>
              else errs e ! j))
     \<and> fst (checkError r) = (if onlyWarnings e then None else Some (ErrServer (fuse (Some ra) e)))"
  using assms
  by (auto simp: fuse_def checkError_def Let_def nth_linkStmts failedIdx_filter)

theorem checkError_links_statements_witness:
  "err e3Reader = None \<and> derr (dec e3Reader) = None
   \<and> lastErrors e3Reader = Some e3Errors \<and> lastRowsAffected e3Reader = Some e3Rows
   \<and> filter (\<lambda>i. rows e3Rows ! i = RaExecutionFailed) [0..<length (rows e3Rows)] = [1]
   \<and> stmtNo (errs (fuse (Some e3Rows) e3Errors) ! 0) = Some 1
   \<and> fst (checkError e3Reader) = Some (ErrServer (fuse (Some e3Rows) e3Errors))
   \<and> fuse (Some e3Rows) e3Errors = e3Errors\<lparr>errs := [(errs e3Errors ! 0)\<lparr>stmtNo := Some 1\<rparr>]\<rparr>"
proof -
  have a: "err e3Reader = None" "derr (dec e3Reader) = None"
    "lastErrors e3Reader = Some e3Errors" "lastRowsAffected e3Reader = Some e3Rows"
    by (simp_all add: e3Reader_def newReader_def)
  have f: "[1] = filter (\<lambda>i. rows e3Rows ! i = RaExecutionFailed) [0..<length (rows e3Rows)]"
    by (simp add: e3Rows_def RaExecutionFailed_def upt_rec)
  have g: "fuse (Some e3Rows) e3Errors = e3Errors\<lparr>errs := [(errs e3Errors ! 0)\<lparr>stmtNo := Some 1\<rparr>]\<rparr>"
    by (simp add: fuse_def e3Rows_def e3Errors_def RaExecutionFailed_def setStmtNo_def)
  have w: "\<not> onlyWarnings e3Errors" "length (errs e3Errors) = 1" "Ofs e3Rows = 0"
    by (simp_all add: e3Errors_def e3Rows_def)
  from checkError_links_statements [OF a f] a f [symmetric] g w show ?thesis
    by simp
qed

text \<open>
  C5. When \<^verbatim>\<open>IterateParts\<close> reaches \<^verbatim>\<open>checkError\<close> with no read error and an error
  list whose only-warnings flag is derived from its entries: if every entry is a warning,
  each is logged, in order, and the call returns \<^verbatim>\<open>nil\<close>; if some entry is not a
  warning, the call returns the error list (with the statement indices of the fusion) as
  its error. The fusion changes no severity.
\<close>

theorem IterateParts_warnings_only:
  assumes "beforeCheck env fn r0 = Some r" and "err r = None" and "derr (dec r) = None"
    and "lastErrors r = Some e"
    and "onlyWarnings e = list_all isWarning (errs e)"
  shows "(list_all isWarning (errs e) \<longrightarrow>
            IterateParts env fn r0 =
              Returns (None, initReadFlags
                 (r\<lparr>logger := logger r @ map LogWarn (errs (fuse (lastRowsAffected r) e))\<rparr>)))
       \<and> (\<not> list_all isWarning (errs e) \<longrightarrow>
            IterateParts env fn r0 =
              Returns (Some (ErrServer (fuse (lastRowsAffected r) e)), initReadFlags r))
       \<and> map errorLevel (errs (fuse (lastRowsAffected r) e)) = map errorLevel (errs e)"
proof -
  have ow: "onlyWarnings (fuse (lastRowsAffected r) e) = onlyWarnings e"
    by (simp add: fuse_def split: option.splits)
  have sev: "map errorLevel (errs (fuse (lastRowsAffected r) e)) = map errorLevel (errs e)"
    by (simp add: fuse_def severity_linkStmts split: option.splits)
  from IterateParts_beforeCheck [OF assms(1)] assms(2-5) ow sev show ?thesis
    by (simp add: checkError_def Let_def)
qed

lemma Some_the: "(case x of None \<Rightarrow> False | Some y \<Rightarrow> True) \<Longrightarrow> x = Some (the x)"
  by (cases x) simp_all

theorem IterateParts_warnings_only_witness:
  "map_option fst (result (IterateParts wire None (newReader warnReply False))) = Some None
   \<and> map_option (logger \<circ> snd) (result (IterateParts wire None (newReader warnReply False)))
       = Some [LogWarn warn10, LogWarn warn11]
   \<and> map_option fst (result (IterateParts wire None (newReader errReply False)))
       = Some (Some (ErrServer \<lparr>errs = [warn10, err11], onlyWarnings = False\<rparr>))"
proof -
  let ?w = "the (beforeCheck wire None (newReader warnReply False))"
  let ?e = "the (beforeCheck wire None (newReader errReply False))"
  have w1: "beforeCheck wire None (newReader warnReply False) = Some ?w"
    by (rule Some_the) code_simp
  have w2: "err ?w = None" "derr (dec ?w) = None" by code_simp+
  have w3: "lastErrors ?w = Some \<lparr>errs = [warn10, warn11], onlyWarnings = True\<rparr>" by code_simp
  have w4: "lastRowsAffected ?w = None" "logger ?w = []" by code_simp+
  have e1: "beforeCheck wire None (newReader errReply False) = Some ?e"
    by (rule Some_the) code_simp
  have e2: "err ?e = None" "derr (dec ?e) = None" by code_simp+
  have e3: "lastErrors ?e = Some \<lparr>errs = [warn10, err11], onlyWarnings = False\<rparr>" by code_simp
  have e4: "lastRowsAffected ?e = None" by code_simp
  have lw: "list_all isWarning [warn10, warn11]" "\<not> list_all isWarning [warn10, err11]"
    by (simp_all add: isWarning_def warn10_def warn11_def err11_def)
  from IterateParts_warnings_only [OF w1 w2 w3] IterateParts_warnings_only [OF e1 e2 e3]
  show ?thesis
    using lw by (simp add: w4 e4 fuse_def result_def initReadFlags_def)
qed

subsection \<open>Reading a part within its declared buffer length\<close>

lemma dec_Skip_cnt_le:
  "0 \<le> n \<Longrightarrow> cnt (dec_Skip n d) \<le> cnt d + n"
  by (auto simp: dec_Skip_def)

lemma dec_Skip_exact:
  "derr (dec_Skip n d) = None \<Longrightarrow> 0 \<le> n \<Longrightarrow>
   cnt (dec_Skip n d) = cnt d + n \<and> rd (dec_Skip n d) = drop (nat n) (rd d)"
  by (auto simp: dec_Skip_def split: if_splits)

text \<open>
  C8. In \<^verbatim>\<open>readPart\<close>, after the part decoder has run with byte counter \<open>cnt d1\<close>:
  a counter above the declared buffer length \<open>bl\<close> makes \<^verbatim>\<open>readPart\<close> panic; a counter
  below it makes the reader skip \<open>bl - cnt d1\<close> bytes, and the payload count it then adds
  to \<open>readBytes\<close> never exceeds \<open>bl\<close>; it is exactly \<open>bl\<close>, with exactly the shortfall
  dropped from the stream, unless the decoder holds a sticky error.
\<close>

theorem readPart_consumes_bufferLength:
  assumes "decodePart env part (ph r) (dec_ResetCnt (dec r)) = Some (e, part', d1)"
    and "r1 = trace (TracePar part') (r\<lparr>dec := d1\<rparr>)"
    and "bl = sint (bufferLength (ph r))"
    and "r2 = (if cnt d1 < bl then r1\<lparr>dec := dec_Skip (bl - cnt d1) d1\<rparr> else r1)"
  shows "(bl < cnt d1 \<longrightarrow> readPart env part r = Panics (PanicBufferLength (cnt d1) bl))
       \<and> (cnt d1 \<le> bl \<longrightarrow>
            payloadSkip r1 = Returns r2
          \<and> cnt (dec r2) \<le> bl
          \<and> (derr (dec r2) = None \<longrightarrow>
                cnt (dec r2) = bl \<and> rd (dec r2) = drop (nat (bl - cnt d1)) (rd d1))
          \<and> readPart env part r =
               (case addPadding (r2\<lparr>readBytes := readBytes r + cnt (dec r2)\<rparr>) of
                  Panics p \<Rightarrow> Panics p
                | Returns r3 \<Rightarrow> Returns (e, part', r3)))"
proof -
  have ph1: "ph r1 = ph r" and dec1: "dec r1 = d1" and rb1: "readBytes r1 = readBytes r"
    using assms(2) by simp_all
  have skip: "payloadSkip r1 =
      (if cnt d1 < bl then Returns (r1\<lparr>dec := dec_Skip (bl - cnt d1) d1\<rparr>)
       else if bl < cnt d1 then Panics (PanicBufferLength (cnt d1) bl) else Returns r1)"
    by (simp add: payloadSkip_def Let_def ph1 dec1 assms(3))
  have rp: "readPart env part r =
      (case payloadSkip r1 of
         Panics p \<Rightarrow> Panics p
       | Returns r2 \<Rightarrow>
           (case addPadding (r2\<lparr>readBytes := readBytes r2 + cnt (dec r2)\<rparr>) of
              Panics p \<Rightarrow> Panics p
            | Returns r3 \<Rightarrow> Returns (e, part', r3)))"
    using assms(1,2) by (simp add: readPart_def)
  have rb2: "readBytes r2 = readBytes r"
    using assms(4) rb1 by simp
  show ?thesis
  proof (cases "cnt d1 < bl")
    case True
    then have d2: "dec r2 = dec_Skip (bl - cnt d1) d1"
      using assms(4) by simp
    have le: "cnt (dec r2) \<le> bl"
      using dec_Skip_cnt_le [of "bl - cnt d1" d1] True d2 by simp
    have ex: "derr (dec r2) = None \<longrightarrow>
                cnt (dec r2) = bl \<and> rd (dec r2) = drop (nat (bl - cnt d1)) (rd d1)"
      using dec_Skip_exact [of "bl - cnt d1" d1] True d2 by simp
    from True le ex show ?thesis
      using skip rp assms(4) rb2 by simp
  next
    case False
    then show ?thesis
      using skip rp assms(4) dec1 rb1 by (cases "bl < cnt d1") auto
  qed
qed

lemma Some_the3:
  "(case x of None \<Rightarrow> False | Some y \<Rightarrow> True) \<Longrightarrow>
   x = Some (fst (the x), fst (snd (the x)), snd (snd (the x)))"
  by (cases x) simp_all

theorem readPart_consumes_bufferLength_witness:
  "cnt (snd (snd (the (decodePart wire (PHdbErrors zeroHdbErrors) (ph shortPart)
                         (dec_ResetCnt (dec shortPart)))))) = 2
   \<and> sint (bufferLength (ph shortPart)) = 5
   \<and> cnt (dec_Skip (5 - 2) (snd (snd (the (decodePart wire (PHdbErrors zeroHdbErrors) (ph shortPart)
                         (dec_ResetCnt (dec shortPart))))))) = 5
   \<and> map_option (\<lambda>(e, p, r). (readBytes r, rd (dec r)))
        (result (readPart wire (PHdbErrors zeroHdbErrors) shortPart)) = Some (24, [])
   \<and> readPart wire (PHdbErrors zeroHdbErrors) overPart = Panics (PanicBufferLength 4 3)"
proof -
  let ?P = "PHdbErrors zeroHdbErrors"
  let ?s = "the (decodePart wire ?P (ph shortPart) (dec_ResetCnt (dec shortPart)))"
  let ?o = "the (decodePart wire ?P (ph overPart) (dec_ResetCnt (dec overPart)))"
  have hs: "decodePart wire ?P (ph shortPart) (dec_ResetCnt (dec shortPart))
              = Some (fst ?s, fst (snd ?s), snd (snd ?s))"
    by (rule Some_the3) code_simp
  have ho: "decodePart wire ?P (ph overPart) (dec_ResetCnt (dec overPart))
              = Some (fst ?o, fst (snd ?o), snd (snd ?o))"
    by (rule Some_the3) code_simp
  have cs: "cnt (snd (snd ?s)) = 2" "sint (bufferLength (ph shortPart)) = 5"
    by code_simp+
  have co: "cnt (snd (snd ?o)) = 4" "sint (bufferLength (ph overPart)) = 3"
    by code_simp+
  have rs: "map_option (\<lambda>(e, p, r). (readBytes r, rd (dec r)))
        (result (readPart wire ?P shortPart)) = Some (24, [])"
    by code_simp
  have "cnt (dec_Skip (5 - 2) (snd (snd ?s))) = 5"
    by code_simp
  moreover from readPart_consumes_bufferLength [OF ho refl refl refl]
  have "readPart wire ?P overPart = Panics (PanicBufferLength 4 3)"
    by (simp add: co del: decodePart.simps)
  ultimately show ?thesis
    using cs rs by (simp del: decodePart.simps)
qed

subsection \<open>The skip policy\<close>

lemma skipPadding_frame:
  "skipPadding r = Returns (pb, r') \<Longrightarrow>
   partCache r' = partCache r \<and> protTrace r' = protTrace r"
  by (auto simp: skipPadding_def Let_def split: if_splits)

lemma addPadding_frame:
  "addPadding r = Returns r' \<Longrightarrow> partCache r' = partCache r \<and> protTrace r' = protTrace r"
  by (auto simp: addPadding_def split: outcome.splits dest: skipPadding_frame)

lemma skipPart_frame:
  "skipPart r = Returns (e, r') \<Longrightarrow> partCache r' = partCache r \<and> protTrace r' = protTrace r"
  by (auto simp: skipPart_def Let_def split: outcome.splits dest!: addPadding_frame)

lemma payloadSkip_frame:
  "payloadSkip r = Returns r' \<Longrightarrow> partCache r' = partCache r \<and> protTrace r' = protTrace r"
  by (auto simp: payloadSkip_def Let_def split: if_splits)

lemma readPart_frame:
  "readPart env part r = Returns (e, part', r') \<Longrightarrow>
   partCache r' = partCache r \<and> protTrace r' = protTrace r"
  by (auto simp: readPart_def split: option.splits outcome.splits
           dest!: addPadding_frame payloadSkip_frame)

lemma setLast_frame [simp]:
  "partCache (setLast p r) = partCache r" "protTrace (setLast p r) = protTrace r"
  by (simp_all add: setLast_def split: Part.splits)

lemma read_frame:
  "read env part r = Returns (e, part', r') \<Longrightarrow>
   partCache r' = partCache r \<and> protTrace r' = protTrace r"
  by (auto simp: read_def split: outcome.splits if_splits dest!: readPart_frame)

lemma readCached_cache:
  "readCached env k part r = Returns (e, r') \<Longrightarrow>
   protTrace r' = protTrace r \<and>
   (\<exists>part'. partCache r' = (partCache r)(k := Some part'))"
  by (auto simp: readCached_def split: outcome.splits dest!: read_frame)

lemma mandatory_instantiable:
  "newGenPartReader PkError = Some (PHdbErrors zeroHdbErrors)"
  "newGenPartReader PkRowsAffected = Some (PRowsAffected zeroRowsAffected)"
  by (simp_all add: newGenPartReader_def)

lemma cacheInv_upd:
  assumes "cacheInv r" and "protTrace r' = protTrace r"
    and "partCache r' = (partCache r)(k := Some p)"
    and "protTrace r \<or> k = PkError \<or> k = PkRowsAffected"
  shows "cacheInv r'"
proof (cases "protTrace r")
  case True
  then show ?thesis using assms(2) by (simp add: cacheInv_def)
next
  case False
  have "k' = PkError \<or> k' = PkRowsAffected" if "partCache r' k' \<noteq> None" for k'
  proof (cases "k' = k")
    case True
    then show ?thesis using assms(4) False by simp
  next
    case ne: False
    then have "partCache r k' \<noteq> None" using that assms(3) by simp
    then show ?thesis using assms(1) False by (simp add: cacheInv_def)
  qed
  then show ?thesis by (simp add: cacheInv_def)
qed

lemma skip_cacheInv:
  assumes "cacheInv r" and "skip env r = Returns (e, r')"
  shows "cacheInv r'"
proof (cases "protTrace r \<or> partKind (ph r) = PkError \<or> partKind (ph r) = PkRowsAffected")
  case False
  then have "skipPart r = Returns (e, r')"
    using assms(2) by (simp add: skip_def)
  from skipPart_frame [OF this] assms(1) show ?thesis
    by (simp add: cacheInv_def)
next
  case True
  let ?k = "partKind (ph r)"
  from assms(2) True
  consider (sk) "skipPart r = Returns (e, r')"
    | (hit) part where "readCached env ?k part r = Returns (e, r')"
    | (new) part where "readCached env ?k part (r\<lparr>partCache := (partCache r)(?k := Some part)\<rparr>) = Returns (e, r')"
    by (auto simp: skip_def Let_def split: option.splits)
  then show ?thesis
  proof cases
    case sk
    from skipPart_frame [OF this] assms(1) show ?thesis
      by (simp add: cacheInv_def)
  next
    case hit
    from readCached_cache [OF this] obtain part' where
      "protTrace r' = protTrace r" "partCache r' = (partCache r)(?k := Some part')"
      by auto
    from cacheInv_upd [OF assms(1) this True] show ?thesis .
  next
    case new
    from readCached_cache [OF this] obtain part' where
      "protTrace r' = protTrace r" "partCache r' = (partCache r)(?k := Some part')"
      by auto
    from cacheInv_upd [OF assms(1) this True] show ?thesis .
  qed
qed

lemma nextPart_frame:
  "nextPart env r = (e, r') \<Longrightarrow> partCache r' = partCache r \<and> protTrace r' = protTrace r"
  by (auto simp: nextPart_def Let_def split: prod.splits if_splits)

lemma cacheInv_frame:
  "cacheInv r \<Longrightarrow> partCache r' = partCache r \<Longrightarrow> protTrace r' = protTrace r \<Longrightarrow> cacheInv r'"
  by (simp add: cacheInv_def)

lemma handlePart_cacheInv:
  assumes "cacheInv r" and "handlePart env fn r = Returns (e, r')"
  shows "cacheInv r'"
proof (cases fn)
  case None
  then show ?thesis using assms skip_cacheInv by (simp add: handlePart_def)
next
  case (Some f)
  show ?thesis
  proof (cases "f (partKind (ph r)) (partAttributes (ph r))")
    case (Decline x)
    then show ?thesis
      using assms Some skip_cacheInv by (cases x) (auto simp: handlePart_def)
  next
    case (ReadInto part k)
    then obtain e' part' where "read env part r = Returns (e', part', r')"
      using assms(2) Some by (auto simp: handlePart_def split: outcome.splits)
    from read_frame [OF this] assms(1) show ?thesis
      by (auto intro: cacheInv_frame)
  qed
qed

lemma iteratePart_cacheInv:
  assumes "cacheInv r" and "iteratePart env fn r = Returns (e, r')"
  shows "cacheInv r'"
proof (cases "nextPart env r")
  case (Pair e1 r1)
  from nextPart_frame [OF Pair] assms(1) have inv1: "cacheInv r1"
    by (auto intro: cacheInv_frame)
  show ?thesis
  proof (cases e1)
    case None
    then have "handlePart env fn r1 = Returns (e, r')"
      using assms(2) Pair by (simp add: iteratePart_def)
    from handlePart_cacheInv [OF inv1 this] show ?thesis .
  next
    case (Some x)
    then have "r' = r1" using assms(2) Pair by (simp add: iteratePart_def)
    then show ?thesis using inv1 by simp
  qed
qed

lemma iterateParts_cacheInv:
  "cacheInv r \<Longrightarrow> iterateParts env fn n r = Returns (e, r') \<Longrightarrow> cacheInv r'"
proof (induction n arbitrary: r)
  case 0
  then show ?case by simp
next
  case (Suc n)
  show ?case
  proof (cases "iteratePart env fn r")
    case (Panics p)
    then show ?thesis using Suc.prems by simp
  next
    case (Returns x)
    obtain e1 r1 where x: "x = (e1, r1)" by (cases x)
    from iteratePart_cacheInv [OF Suc.prems(1)] Returns x have inv1: "cacheInv r1" by simp
    show ?thesis
    proof (cases e1)
      case None
      then have "iterateParts env fn n r1 = Returns (e, r')"
        using Suc.prems(2) Returns x by simp
      from Suc.IH [OF inv1 this] show ?thesis .
    next
      case (Some y)
      then have "r' = r1" using Suc.prems(2) Returns x by simp
      then show ?thesis using inv1 by simp
    qed
  qed
qed

lemma iterateSegment_cacheInv:
  assumes "cacheInv r" and "iterateSegment env fn r = Returns (e, r')"
  shows "cacheInv r'"
proof (cases "sh_decode env (dec r)")
  case (fields e1 h d)
  show ?thesis
  proof (cases e1)
    case (Some x)
    then have "r' = r\<lparr>sh := h, dec := d\<rparr>"
      using assms(2) fields by (simp add: iterateSegment_def)
    then show ?thesis using assms(1) by (simp add: cacheInv_def)
  next
    case None
    let ?r3 = "(trace (TraceSegHdr h) (r\<lparr>sh := h, dec := d, readBytes := readBytes r + segmentHeaderSize\<rparr>))
                 \<lparr>numPart := sint (noOfParts h), cntPart := 0\<rparr>"
    have inv3: "cacheInv ?r3"
      using assms(1) by (simp add: cacheInv_def)
    have "iterateParts env fn (nat (sint (noOfParts h))) ?r3 = Returns (e, r')"
      using assms(2) fields None by (simp add: iterateSegment_def Let_def)
    from iterateParts_cacheInv [OF inv3 this] show ?thesis .
  qed
qed

lemma iterateSegments_cacheInv:
  "cacheInv r \<Longrightarrow> iterateSegments env fn n r = Returns (e, r') \<Longrightarrow> cacheInv r'"
proof (induction n arbitrary: r)
  case 0
  then show ?case by simp
next
  case (Suc n)
  show ?case
  proof (cases "iterateSegment env fn r")
    case (Panics p)
    then show ?thesis using Suc.prems by simp
  next
    case (Returns x)
    obtain e1 r1 where x: "x = (e1, r1)" by (cases x)
    from iterateSegment_cacheInv [OF Suc.prems(1)] Returns x have inv1: "cacheInv r1" by simp
    show ?thesis
    proof (cases e1)
      case None
      then have "iterateSegments env fn n r1 = Returns (e, r')"
        using Suc.prems(2) Returns x by simp
      from Suc.IH [OF inv1 this] show ?thesis .
    next
      case (Some y)
      then have "r' = r1" using Suc.prems(2) Returns x by simp
      then show ?thesis using inv1 by simp
    qed
  qed
qed

lemma checkError_frame:
  "partCache (snd (checkError r)) = partCache r \<and> protTrace (snd (checkError r)) = protTrace r"
  by (simp add: checkError_def initReadFlags_def Let_def split: option.splits)

lemma IterateParts_cacheInv:
  assumes "cacheInv r" and "IterateParts env fn r = Returns (e, r')"
  shows "cacheInv r'"
proof (cases "mh_decode env (dec r)")
  case (fields e1 h d)
  show ?thesis
  proof (cases e1)
    case (Some x)
    then have "r' = r\<lparr>mh := h, dec := d\<rparr>"
      using assms(2) fields by (simp add: IterateParts_def)
    then show ?thesis using assms(1) by (simp add: cacheInv_def)
  next
    case None
    let ?r2 = "trace (TraceMsgHdr h) (r\<lparr>mh := h, dec := d, readBytes := 0\<rparr>)"
    have inv2: "cacheInv ?r2"
      using assms(1) by (simp add: cacheInv_def)
    show ?thesis
    proof (cases "iterateSegments env fn (nat (sint (noOfSegm h))) ?r2")
      case (Panics p)
      then show ?thesis using assms(2) fields None by (simp add: IterateParts_def Let_def)
    next
      case (Returns x)
      obtain e3 r3 where x: "x = (e3, r3)" by (cases x)
      from iterateSegments_cacheInv [OF inv2] Returns x have inv3: "cacheInv r3" by simp
      show ?thesis
      proof (cases e3)
        case (Some y)
        then have "r' = r3"
          using assms(2) fields None Returns x by (simp add: IterateParts_def Let_def)
        then show ?thesis using inv3 by simp
      next
        case n3: None
        then have "r' = snd (checkError r3)"
          using assms(2) fields None Returns x
          by (cases "checkError r3") (simp add: IterateParts_def Let_def)
        then show ?thesis
          using inv3 checkError_frame [of r3] by (auto intro: cacheInv_frame)
      qed
    qed
  qed
qed

text \<open>
  C2, as amended. A part the handler did not read is decoded into a cached instance exactly
  when protocol trace is on or its kind is Error or RowsAffected, and a decoder is at hand:
  the cached one, or one \<^verbatim>\<open>newGenPartReader\<close> can create, which is then cached. In every
  other case \<^verbatim>\<open>skipPart\<close> discards the declared buffer length: without trace for every
  kind other than Error and RowsAffected, and with trace for a kind that has neither a
  cached decoder nor a generic one. Error and RowsAffected always have a generic decoder,
  and a part read through the cache leaves its decoder in the cache. Without trace the
  cache only ever holds Error and RowsAffected decoders (the invariant holds for a new
  reader and \<^verbatim>\<open>IterateParts\<close> keeps it), so a part whose kind has a cached decoder is
  decoded.
\<close>

theorem skip_policy:
  "(\<not> protTrace r \<and> partKind (ph r) \<noteq> PkError \<and> partKind (ph r) \<noteq> PkRowsAffected \<longrightarrow>
      skip env r = skipPart r)
   \<and> ((protTrace r \<or> partKind (ph r) = PkError \<or> partKind (ph r) = PkRowsAffected)
        \<and> partCache r (partKind (ph r)) = Some part \<longrightarrow>
      skip env r = readCached env (partKind (ph r)) part r)
   \<and> ((protTrace r \<or> partKind (ph r) = PkError \<or> partKind (ph r) = PkRowsAffected)
        \<and> partCache r (partKind (ph r)) = None \<and> newGenPartReader (partKind (ph r)) = Some part \<longrightarrow>
      skip env r = readCached env (partKind (ph r)) part
                     (r\<lparr>partCache := (partCache r)(partKind (ph r) := Some part)\<rparr>))
   \<and> (partCache r (partKind (ph r)) = None \<and> newGenPartReader (partKind (ph r)) = None \<longrightarrow>
      skip env r = skipPart r)
   \<and> newGenPartReader PkError \<noteq> None \<and> newGenPartReader PkRowsAffected \<noteq> None
   \<and> (readCached env k part r = Returns (e, r') \<longrightarrow>
        (\<exists>part'. partCache r' k = Some part'))
   \<and> cacheInv (newReader bs tr)
   \<and> (cacheInv r \<and> IterateParts env fn r = Returns (e, r') \<longrightarrow> cacheInv r')
   \<and> (cacheInv r \<and> partCache r (partKind (ph r)) = Some part \<longrightarrow>
        skip env r = readCached env (partKind (ph r)) part r)"
proof -
  have a: "cacheInv (newReader bs tr)"
    by (simp add: cacheInv_def newReader_def)
  have b: "readCached env k part r = Returns (e, r') \<longrightarrow> (\<exists>part'. partCache r' k = Some part')"
    by (auto dest!: readCached_cache)
  have c: "cacheInv r \<and> partCache r (partKind (ph r)) = Some part \<longrightarrow>
        skip env r = readCached env (partKind (ph r)) part r"
    by (auto simp: cacheInv_def skip_def)
  show ?thesis
    using a b c IterateParts_cacheInv [of r env fn e r']
    by (auto simp: skip_def Let_def mandatory_instantiable)
qed

text \<open>
  C2 as stated fails: with protocol trace on, a command part is neither of kind Error or
  RowsAffected nor has it a cached decoder, yet \<^verbatim>\<open>skip\<close> does not discard it: it
  creates a decoder, caches it and decodes the three bytes of the part (and traces the
  part), where \<^verbatim>\<open>skipPart\<close> would leave the cache empty (and trace the skip).
\<close>

theorem skip_traced_command_decoded:
  "protTrace tracedPart \<and> partKind (ph tracedPart) = PkCommand
   \<and> partCache tracedPart PkCommand = None
   \<and> map_option (\<lambda>(e, r). (partCache r PkCommand, logger r ! 1)) (result (skip wire tracedPart))
        = Some (Some (POther TCommand [1, 2, 3]), TracePar (POther TCommand [1, 2, 3]))
   \<and> map_option (\<lambda>(e, r). (partCache r PkCommand, logger r ! 1)) (result (skipPart tracedPart))
        = Some (None, TraceSkip PkCommand)"
  by code_simp

theorem skip_policy_witness:
  "skip wire untracedPart = skipPart untracedPart
   \<and> skip wire tracedPart =
       readCached wire PkCommand (POther TCommand [])
         (tracedPart\<lparr>partCache := (partCache tracedPart)(PkCommand := Some (POther TCommand []))\<rparr>)
   \<and> cacheInv (newReader [] False)"
proof -
  have u: "\<not> protTrace untracedPart" "partKind (ph untracedPart) = PkCommand"
    by code_simp+
  have t: "protTrace tracedPart" "partKind (ph tracedPart) = PkCommand"
    "partCache tracedPart PkCommand = None"
    by code_simp+
  have g: "newGenPartReader PkCommand = Some (POther TCommand [])"
    by (simp add: newGenPartReader_def)
  from skip_policy [where r = untracedPart and env = wire]
  have 1: "skip wire untracedPart = skipPart untracedPart"
    using u by simp
  from skip_policy [where r = tracedPart and env = wire and part = "POther TCommand []"]
  have 2: "skip wire tracedPart =
       readCached wire PkCommand (POther TCommand [])
         (tracedPart\<lparr>partCache := (partCache tracedPart)(PkCommand := Some (POther TCommand []))\<rparr>)"
    using t g by simp
  from skip_policy [where bs = "[]" and tr = False]
  have 3: "cacheInv (newReader [] False)"
    by simp
  from 1 2 3 show ?thesis by simp
qed

subsection \<open>The reset of the fusion state\<close>

lemma checkError_resets: "fusionReset (snd (checkError r))"
  by (simp add: fusionReset_def checkError_def initReadFlags_def dec_ResetError_def Let_def
           split: option.splits)

lemma IterateParts_early:
  "beforeCheck env fn r0 = None \<Longrightarrow> IterateParts env fn r0 = Returns (e, r') \<Longrightarrow> e \<noteq> None"
  unfolding beforeCheck_def IterateParts_def Let_def
  by (auto split: prod.splits if_splits outcome.splits option.splits)

text \<open>
  C3, as amended. When \<^verbatim>\<open>IterateParts\<close> gets to the end of the message it returns what
  \<^verbatim>\<open>checkError\<close> returns, and then, error or not, the last errors, the last rows
  affected, the stored read error and the sticky error of the decoder are reset. Every
  return without an error is of this kind. A call that does not get there returns early
  with an error.
\<close>

theorem IterateParts_resets_at_end:
  "(beforeCheck env fn r0 = Some r \<longrightarrow>
      IterateParts env fn r0 = Returns (checkError r) \<and> fusionReset (snd (checkError r)))
   \<and> (IterateParts env fn r0 = Returns (None, r') \<longrightarrow> fusionReset r')
   \<and> (beforeCheck env fn r0 = None \<and> IterateParts env fn r0 = Returns (e, r') \<longrightarrow> e \<noteq> None)"
proof -
  have a: "beforeCheck env fn r0 = Some r \<longrightarrow>
      IterateParts env fn r0 = Returns (checkError r) \<and> fusionReset (snd (checkError r))"
    using IterateParts_beforeCheck checkError_resets by blast
  have b: "fusionReset r'" if h: "IterateParts env fn r0 = Returns (None, r')"
  proof (cases "beforeCheck env fn r0")
    case None
    from IterateParts_early [OF None h] show ?thesis by simp
  next
    case (Some x)
    from IterateParts_beforeCheck [OF Some] h have "checkError x = (None, r')" by simp
    then have "r' = snd (checkError x)" by simp
    then show ?thesis using checkError_resets by simp
  qed
  show ?thesis
    using a b IterateParts_early by blast
qed

text \<open>
  C3 as stated fails on an early return. The handler returns an error at the second part
  after the error part before it had been decoded into the cache: \<^verbatim>\<open>IterateParts\<close>
  returns that error and the reader still points to the decoded errors. On a reply cut
  off after its first part the header decoder fails: \<^verbatim>\<open>IterateParts\<close> returns the
  error, and both the sticky error of the decoder and the last errors are still set.
\<close>

theorem IterateParts_early_return_keeps_state:
  "map_option (\<lambda>(e, r). (e, lastErrors r))
      (result (IterateParts wire (Some failOnRows) (newReader errThenRows False)))
     = Some (Some (ErrOther 1),
             Some \<lparr>errs = [\<lparr>errorLevel = LevelError, errorCode = 45, errorText = [], stmtNo = None\<rparr>],
                   onlyWarnings = False\<rparr>)
   \<and> map_option (\<lambda>(e, r). (e, derr (dec r), lastErrors r = None))
      (result (IterateParts wire None (newReader truncated False)))
     = Some (Some ErrUnexpectedEOF, Some ErrUnexpectedEOF, False)"
  by code_simp

theorem IterateParts_resets_at_end_witness:
  "map_option fst (result (IterateParts wire None (newReader e3Reply False)))
      = Some (Some (ErrServer (e3Errors\<lparr>errs := [\<lparr>errorLevel = LevelError, errorCode = 45, errorText = [], stmtNo = Some 1\<rparr>]\<rparr>)))
   \<and> map_option (fusionReset \<circ> snd) (result (IterateParts wire None (newReader e3Reply False)))
      = Some True
   \<and> map_option (\<lambda>(e, r). (e, fusionReset r)) (result (IterateParts wire None (newReader warnReply False)))
      = Some (None, True)"
proof -
  let ?a = "the (beforeCheck wire None (newReader e3Reply False))"
  let ?b = "the (beforeCheck wire None (newReader warnReply False))"
  have a: "beforeCheck wire None (newReader e3Reply False) = Some ?a"
    by (rule Some_the) code_simp
  have b: "beforeCheck wire None (newReader warnReply False) = Some ?b"
    by (rule Some_the) code_simp
  have ea: "fst (checkError ?a) = Some (ErrServer (e3Errors\<lparr>errs := [\<lparr>errorLevel = LevelError, errorCode = 45, errorText = [], stmtNo = Some 1\<rparr>]\<rparr>))"
    by code_simp
  have eb: "fst (checkError ?b) = None"
    by code_simp
  from IterateParts_resets_at_end [of wire None "newReader e3Reply False" ?a] a
  have 1: "IterateParts wire None (newReader e3Reply False) = Returns (checkError ?a)"
    and 2: "fusionReset (snd (checkError ?a))" by simp_all
  from IterateParts_resets_at_end [of wire None "newReader warnReply False" ?b] b
  have 3: "IterateParts wire None (newReader warnReply False) = Returns (checkError ?b)"
    and 4: "fusionReset (snd (checkError ?b))" by simp_all
  show ?thesis
    using ea eb 2 4 by (simp add: 1 3 result_def split_beta)
qed

subsection \<open>Skipping all parts\<close>

lemma kind_PkError: "kind p = PkError \<Longrightarrow> \<exists>x. p = PHdbErrors x"
proof (cases p)
  case (POther t v)
  assume "kind p = PkError"
  then show ?thesis using POther by (cases t) simp_all
qed simp_all

lemma kind_PkRowsAffected: "kind p = PkRowsAffected \<Longrightarrow> \<exists>x. p = PRowsAffected x"
proof (cases p)
  case (POther t v)
  assume "kind p = PkRowsAffected"
  then show ?thesis using POther by (cases t) simp_all
qed simp_all

lemma kind_POther: "kind (POther t v) = kind (POther t v')"
  by (cases t) simp_all

lemma decodePart_kind:
  "decodePart env p h d = Some (e, p', d') \<Longrightarrow> kind p' = kind p"
  by (cases p) (auto split: prod.splits DecoderShape.splits intro: kind_POther)

lemma readPart_kind:
  "readPart env p r = Returns (e, p', r') \<Longrightarrow>
   kind p' = kind p \<and> lastErrors r' = lastErrors r \<and> lastRowsAffected r' = lastRowsAffected r"
  by (auto simp: readPart_def payloadSkip_def addPadding_def skipPadding_def Let_def trace_def
           split: option.splits outcome.splits if_splits prod.splits dest: decodePart_kind)

lemma read_last:
  assumes "read env p r = Returns (e, p', r')"
  shows "kind p' = kind p"
    and "kind p = PkError \<Longrightarrow> \<exists>x. p' = PHdbErrors x \<and> lastErrors r' = Some x"
    and "kind p = PkRowsAffected \<Longrightarrow> \<exists>x. p' = PRowsAffected x \<and> lastRowsAffected r' = Some x"
proof -
  from assms obtain r1 where rp: "readPart env p r = Returns (e, p', r1)"
    and r': "r' = setLast p' (if e \<noteq> None then r1\<lparr>err := e\<rparr> else r1)"
    by (auto simp: read_def split: outcome.splits)
  from readPart_kind [OF rp] show k: "kind p' = kind p" by simp
  show "\<exists>x. p' = PHdbErrors x \<and> lastErrors r' = Some x" if "kind p = PkError"
  proof -
    from that k kind_PkError obtain x where "p' = PHdbErrors x" by metis
    then show ?thesis using r' by (simp add: setLast_def)
  qed
  show "\<exists>x. p' = PRowsAffected x \<and> lastRowsAffected r' = Some x" if "kind p = PkRowsAffected"
  proof -
    from that k kind_PkRowsAffected obtain x where "p' = PRowsAffected x" by metis
    then show ?thesis using r' by (simp add: setLast_def)
  qed
qed

lemma newGenPartReader_kind: "newGenPartReader k = Some p \<Longrightarrow> kind p = k"
  by (cases k) (auto simp: newGenPartReader_def)

text \<open>What \<^verbatim>\<open>skip\<close> reads a part of a mandatory kind into.\<close>

lemma skip_reads:
  assumes "protTrace r \<or> partKind (ph r) = PkError \<or> partKind (ph r) = PkRowsAffected"
    and "cacheKinds r" and "skip env r = Returns (e, r')"
    and "partCache r (partKind (ph r)) \<noteq> None \<or> newGenPartReader (partKind (ph r)) \<noteq> None"
  shows "\<exists>p p' r0 r1. kind p = partKind (ph r) \<and> read env p r0 = Returns (e, p', r1)
           \<and> partCache r0 = (partCache r)(partKind (ph r) := Some p)
           \<and> r' = r1\<lparr>partCache := (partCache r1)(partKind (ph r) := Some p')\<rparr>"
proof (cases "partCache r (partKind (ph r))")
  case (Some p)
  then have k: "kind p = partKind (ph r)" using assms(2) by (simp add: cacheKinds_def)
  have "readCached env (partKind (ph r)) p r = Returns (e, r')"
    using assms(1,3) Some by (auto simp: skip_def Let_def)
  then obtain p' r1 where "read env p r = Returns (e, p', r1)"
    "r' = r1\<lparr>partCache := (partCache r1)(partKind (ph r) := Some p')\<rparr>"
    by (auto simp: readCached_def split: outcome.splits)
  moreover have "partCache r = (partCache r)(partKind (ph r) := Some p)"
    using Some by (simp add: fun_upd_idem)
  ultimately show ?thesis using k by blast
next
  case None
  then obtain p where g: "newGenPartReader (partKind (ph r)) = Some p"
    using assms(4) by auto
  let ?r0 = "r\<lparr>partCache := (partCache r)(partKind (ph r) := Some p)\<rparr>"
  have "readCached env (partKind (ph r)) p ?r0 = Returns (e, r')"
    using assms(1,3) None g by (auto simp: skip_def Let_def)
  then obtain p' r1 where "read env p ?r0 = Returns (e, p', r1)"
    "r' = r1\<lparr>partCache := (partCache r1)(partKind (ph r) := Some p')\<rparr>"
    by (auto simp: readCached_def split: outcome.splits)
  then show ?thesis using newGenPartReader_kind [OF g] by fastforce
qed

lemma skip_cacheKinds:
  assumes "cacheKinds r" and "skip env r = Returns (e, r')"
  shows "cacheKinds r'"
proof (cases "(protTrace r \<or> partKind (ph r) = PkError \<or> partKind (ph r) = PkRowsAffected)
              \<and> (partCache r (partKind (ph r)) \<noteq> None \<or> newGenPartReader (partKind (ph r)) \<noteq> None)")
  case False
  then have "skipPart r = Returns (e, r')"
    using assms(2) by (auto simp: skip_def Let_def split: option.splits)
  from skipPart_frame [OF this] assms(1) show ?thesis
    by (simp add: cacheKinds_def)
next
  case True
  with skip_reads [OF _ assms] obtain p p' r0 r1 where
    k: "kind p = partKind (ph r)" and rd: "read env p r0 = Returns (e, p', r1)"
    and c0: "partCache r0 = (partCache r)(partKind (ph r) := Some p)"
    and r': "r' = r1\<lparr>partCache := (partCache r1)(partKind (ph r) := Some p')\<rparr>"
    by blast
  from read_frame [OF rd] have c1: "partCache r1 = partCache r0" by simp
  from read_last(1) [OF rd] k have k': "kind p' = partKind (ph r)" by simp
  show ?thesis
    unfolding cacheKinds_def r' using assms(1) c1 c0 k'
    by (auto simp: cacheKinds_def)
qed

lemma cacheKinds_frame:
  "cacheKinds r \<Longrightarrow> partCache r' = partCache r \<Longrightarrow> protTrace r' = protTrace r \<Longrightarrow> cacheKinds r'"
  by (simp add: cacheKinds_def)

lemma handlePart_cacheKinds:
  assumes "cacheKinds r" and "handlePart env fn r = Returns (e, r')"
  shows "cacheKinds r'"
proof (cases fn)
  case None
  then show ?thesis using assms skip_cacheKinds by (simp add: handlePart_def)
next
  case (Some f)
  show ?thesis
  proof (cases "f (partKind (ph r)) (partAttributes (ph r))")
    case (Decline x)
    then show ?thesis
      using assms Some skip_cacheKinds by (cases x) (auto simp: handlePart_def)
  next
    case (ReadInto part k)
    then obtain e' part' where "read env part r = Returns (e', part', r')"
      using assms(2) Some by (auto simp: handlePart_def split: outcome.splits)
    from read_frame [OF this] assms(1) show ?thesis
      by (auto intro: cacheKinds_frame)
  qed
qed

lemma iteratePart_cacheKinds:
  assumes "cacheKinds r" and "iteratePart env fn r = Returns (e, r')"
  shows "cacheKinds r'"
proof (cases "nextPart env r")
  case (Pair e1 r1)
  from nextPart_frame [OF Pair] assms(1) have inv1: "cacheKinds r1"
    by (auto intro: cacheKinds_frame)
  show ?thesis
  proof (cases e1)
    case None
    then have "handlePart env fn r1 = Returns (e, r')"
      using assms(2) Pair by (simp add: iteratePart_def)
    from handlePart_cacheKinds [OF inv1 this] show ?thesis .
  next
    case (Some x)
    then have "r' = r1" using assms(2) Pair by (simp add: iteratePart_def)
    then show ?thesis using inv1 by simp
  qed
qed

lemma iterateParts_cacheKinds:
  "cacheKinds r \<Longrightarrow> iterateParts env fn n r = Returns (e, r') \<Longrightarrow> cacheKinds r'"
proof (induction n arbitrary: r)
  case 0
  then show ?case by simp
next
  case (Suc n)
  show ?case
  proof (cases "iteratePart env fn r")
    case (Panics p)
    then show ?thesis using Suc.prems by simp
  next
    case (Returns x)
    obtain e1 r1 where x: "x = (e1, r1)" by (cases x)
    from iteratePart_cacheKinds [OF Suc.prems(1)] Returns x have inv1: "cacheKinds r1" by simp
    show ?thesis
    proof (cases e1)
      case None
      then have "iterateParts env fn n r1 = Returns (e, r')"
        using Suc.prems(2) Returns x by simp
      from Suc.IH [OF inv1 this] show ?thesis .
    next
      case (Some y)
      then have "r' = r1" using Suc.prems(2) Returns x by simp
      then show ?thesis using inv1 by simp
    qed
  qed
qed

lemma iterateSegment_cacheKinds:
  assumes "cacheKinds r" and "iterateSegment env fn r = Returns (e, r')"
  shows "cacheKinds r'"
proof (cases "sh_decode env (dec r)")
  case (fields e1 h d)
  show ?thesis
  proof (cases e1)
    case (Some x)
    then have "r' = r\<lparr>sh := h, dec := d\<rparr>"
      using assms(2) fields by (simp add: iterateSegment_def)
    then show ?thesis using assms(1) by (simp add: cacheKinds_def)
  next
    case None
    let ?r3 = "(trace (TraceSegHdr h) (r\<lparr>sh := h, dec := d, readBytes := readBytes r + segmentHeaderSize\<rparr>))
                 \<lparr>numPart := sint (noOfParts h), cntPart := 0\<rparr>"
    have inv3: "cacheKinds ?r3"
      using assms(1) by (simp add: cacheKinds_def)
    have "iterateParts env fn (nat (sint (noOfParts h))) ?r3 = Returns (e, r')"
      using assms(2) fields None by (simp add: iterateSegment_def Let_def)
    from iterateParts_cacheKinds [OF inv3 this] show ?thesis .
  qed
qed

lemma iterateSegments_cacheKinds:
  "cacheKinds r \<Longrightarrow> iterateSegments env fn n r = Returns (e, r') \<Longrightarrow> cacheKinds r'"
proof (induction n arbitrary: r)
  case 0
  then show ?case by simp
next
  case (Suc n)
  show ?case
  proof (cases "iterateSegment env fn r")
    case (Panics p)
    then show ?thesis using Suc.prems by simp
  next
    case (Returns x)
    obtain e1 r1 where x: "x = (e1, r1)" by (cases x)
    from iterateSegment_cacheKinds [OF Suc.prems(1)] Returns x have inv1: "cacheKinds r1" by simp
    show ?thesis
    proof (cases e1)
      case None
      then have "iterateSegments env fn n r1 = Returns (e, r')"
        using Suc.prems(2) Returns x by simp
      from Suc.IH [OF inv1 this] show ?thesis .
    next
      case (Some y)
      then have "r' = r1" using Suc.prems(2) Returns x by simp
      then show ?thesis using inv1 by simp
    qed
  qed
qed

lemma IterateParts_cacheKinds:
  assumes "cacheKinds r" and "IterateParts env fn r = Returns (e, r')"
  shows "cacheKinds r'"
proof (cases "mh_decode env (dec r)")
  case (fields e1 h d)
  show ?thesis
  proof (cases e1)
    case (Some x)
    then have "r' = r\<lparr>mh := h, dec := d\<rparr>"
      using assms(2) fields by (simp add: IterateParts_def)
    then show ?thesis using assms(1) by (simp add: cacheKinds_def)
  next
    case None
    let ?r2 = "trace (TraceMsgHdr h) (r\<lparr>mh := h, dec := d, readBytes := 0\<rparr>)"
    have inv2: "cacheKinds ?r2"
      using assms(1) by (simp add: cacheKinds_def)
    show ?thesis
    proof (cases "iterateSegments env fn (nat (sint (noOfSegm h))) ?r2")
      case (Panics p)
      then show ?thesis using assms(2) fields None by (simp add: IterateParts_def Let_def)
    next
      case (Returns x)
      obtain e3 r3 where x: "x = (e3, r3)" by (cases x)
      from iterateSegments_cacheKinds [OF inv2] Returns x have inv3: "cacheKinds r3" by simp
      show ?thesis
      proof (cases e3)
        case (Some y)
        then have "r' = r3"
          using assms(2) fields None Returns x by (simp add: IterateParts_def Let_def)
        then show ?thesis using inv3 by simp
      next
        case n3: None
        then have "r' = snd (checkError r3)"
          using assms(2) fields None Returns x
          by (cases "checkError r3") (simp add: IterateParts_def Let_def)
        then show ?thesis
          using inv3 checkError_frame [of r3] by (auto intro: cacheKinds_frame)
      qed
    qed
  qed
qed

lemma handlePart_decline:
  assumes "\<forall>k a. f k a = Decline None"
  shows "handlePart env (Some f) r = handlePart env None r"
  using assms by (simp add: handlePart_def)

lemma iteratePart_decline:
  assumes "\<forall>k a. f k a = Decline None"
  shows "iteratePart env (Some f) r = iteratePart env None r"
  by (simp add: iteratePart_def handlePart_decline [OF assms] split: prod.splits option.splits)

lemma iterateParts_decline:
  assumes "\<forall>k a. f k a = Decline None"
  shows "iterateParts env (Some f) n r = iterateParts env None n r"
  by (induction n arbitrary: r)
     (simp_all add: iteratePart_decline [OF assms] split: outcome.splits prod.splits option.splits)

lemma iterateSegment_decline:
  assumes "\<forall>k a. f k a = Decline None"
  shows "iterateSegment env (Some f) r = iterateSegment env None r"
  by (simp add: iterateSegment_def iterateParts_decline [OF assms] Let_def split: prod.splits)

lemma iterateSegments_decline:
  assumes "\<forall>k a. f k a = Decline None"
  shows "iterateSegments env (Some f) n r = iterateSegments env None n r"
  by (induction n arbitrary: r)
     (simp_all add: iterateSegment_decline [OF assms] split: outcome.splits prod.splits option.splits)

lemma IterateParts_decline:
  assumes "\<forall>k a. f k a = Decline None"
  shows "IterateParts env (Some f) r = IterateParts env None r"
  by (simp add: IterateParts_def iterateSegments_decline [OF assms] Let_def split: prod.splits)

lemma skip_materialises_errors:
  assumes "cacheKinds r" and "partKind (ph r) = PkError" and "skip env r = Returns (e, r')"
  shows "\<exists>x. lastErrors r' = Some x \<and> partCache r' PkError = Some (PHdbErrors x)"
proof -
  have m: "protTrace r \<or> partKind (ph r) = PkError \<or> partKind (ph r) = PkRowsAffected"
    using assms(2) by simp
  have g: "partCache r (partKind (ph r)) \<noteq> None \<or> newGenPartReader (partKind (ph r)) \<noteq> None"
    using assms(2) by (simp add: newGenPartReader_def)
  from skip_reads [OF m assms(1,3) g] assms(2) obtain p p' r0 r1 where
    k: "kind p = PkError" and rd: "read env p r0 = Returns (e, p', r1)"
    and r': "r' = r1\<lparr>partCache := (partCache r1)(PkError := Some p')\<rparr>"
    by auto
  from read_last(2) [OF rd k] obtain x where "p' = PHdbErrors x" "lastErrors r1 = Some x"
    by blast
  then show ?thesis using r' by simp
qed

lemma skip_materialises_rows:
  assumes "cacheKinds r" and "partKind (ph r) = PkRowsAffected" and "skip env r = Returns (e, r')"
  shows "\<exists>x. lastRowsAffected r' = Some x \<and> partCache r' PkRowsAffected = Some (PRowsAffected x)"
proof -
  have m: "protTrace r \<or> partKind (ph r) = PkError \<or> partKind (ph r) = PkRowsAffected"
    using assms(2) by simp
  have g: "partCache r (partKind (ph r)) \<noteq> None \<or> newGenPartReader (partKind (ph r)) \<noteq> None"
    using assms(2) by (simp add: newGenPartReader_def)
  from skip_reads [OF m assms(1,3) g] assms(2) obtain p p' r0 r1 where
    k: "kind p = PkRowsAffected" and rd: "read env p r0 = Returns (e, p', r1)"
    and r': "r' = r1\<lparr>partCache := (partCache r1)(PkRowsAffected := Some p')\<rparr>"
    by auto
  from read_last(3) [OF rd k] obtain x where "p' = PRowsAffected x" "lastRowsAffected r1 = Some x"
    by blast
  then show ?thesis using r' by simp
qed

text \<open>
  C9. \<^verbatim>\<open>SkipParts\<close> is \<^verbatim>\<open>IterateParts\<close> with the \<^verbatim>\<open>nil\<close> handler, and a handler that
  declines every part behaves the same. Every decoder in the part cache is of the kind it
  is cached under (so for a new reader, and \<^verbatim>\<open>IterateParts\<close> keeps it); then a
  declined part of kind Error or RowsAffected that \<^verbatim>\<open>skip\<close> returns from has been
  decoded into the cached instance, and the reader points to it. So when the iteration
  ends without read error on an error list that is not of warnings only,
  \<^verbatim>\<open>SkipParts\<close> returns the fused error list as its error.
\<close>

theorem SkipParts_is_IterateParts_nil:
  "SkipParts env r = IterateParts env None r
   \<and> ((\<forall>k a. f k a = Decline None) \<longrightarrow> IterateParts env (Some f) r = SkipParts env r)
   \<and> cacheKinds (newReader bs tr)
   \<and> (cacheKinds r \<and> IterateParts env fn r = Returns (e, r') \<longrightarrow> cacheKinds r')
   \<and> (cacheKinds r1 \<and> partKind (ph r1) = PkError \<and> skip env r1 = Returns (e1, r1') \<longrightarrow>
        (\<exists>x. lastErrors r1' = Some x \<and> partCache r1' PkError = Some (PHdbErrors x)))
   \<and> (cacheKinds r1 \<and> partKind (ph r1) = PkRowsAffected \<and> skip env r1 = Returns (e1, r1') \<longrightarrow>
        (\<exists>x. lastRowsAffected r1' = Some x \<and> partCache r1' PkRowsAffected = Some (PRowsAffected x)))
   \<and> (beforeCheck env None r = Some r2 \<and> err r2 = None \<and> derr (dec r2) = None
        \<and> lastErrors r2 = Some x \<and> \<not> onlyWarnings x \<longrightarrow>
        SkipParts env r = Returns (Some (ErrServer (fuse (lastRowsAffected r2) x)), initReadFlags r2))"
proof -
  have a: "cacheKinds (newReader bs tr)"
    by (simp add: cacheKinds_def newReader_def)
  have b: "SkipParts env r = Returns (Some (ErrServer (fuse (lastRowsAffected r2) x)), initReadFlags r2)"
    if "beforeCheck env None r = Some r2" "err r2 = None" "derr (dec r2) = None"
       "lastErrors r2 = Some x" "\<not> onlyWarnings x"
  proof -
    have "onlyWarnings (fuse (lastRowsAffected r2) x) = onlyWarnings x"
      by (simp add: fuse_def split: option.splits)
    with IterateParts_beforeCheck [OF that(1)] that(2-5) show ?thesis
      by (simp add: SkipParts_def checkError_def Let_def)
  qed
  have c: "(\<forall>k a. f k a = Decline None) \<longrightarrow> IterateParts env (Some f) r = SkipParts env r"
    using IterateParts_decline [of f env r] by (simp add: SkipParts_def)
  show ?thesis
    using a b c IterateParts_cacheKinds [of r env fn e r']
      skip_materialises_errors [of r1 env e1 r1'] skip_materialises_rows [of r1 env e1 r1']
    by (simp add: SkipParts_def)
qed

theorem SkipParts_is_IterateParts_nil_witness:
  "IterateParts wire (Some declineAll) (newReader e3Reply False) = SkipParts wire (newReader e3Reply False)
   \<and> map_option fst (result (SkipParts wire (newReader e3Reply False)))
      = Some (Some (ErrServer \<lparr>errs = [\<lparr>errorLevel = LevelError, errorCode = 45, errorText = [], stmtNo = Some 1\<rparr>],
                                onlyWarnings = False\<rparr>))"
proof -
  let ?a = "the (beforeCheck wire None (newReader e3Reply False))"
  let ?x = "\<lparr>errs = [\<lparr>errorLevel = LevelError, errorCode = 45, errorText = [], stmtNo = None\<rparr>],
             onlyWarnings = False\<rparr>"
  have a: "beforeCheck wire None (newReader e3Reply False) = Some ?a"
    by (rule Some_the) code_simp
  have st: "err ?a = None" "derr (dec ?a) = None" "lastErrors ?a = Some ?x"
    by code_simp+
  have fu: "fuse (lastRowsAffected ?a) ?x
     = \<lparr>errs = [\<lparr>errorLevel = LevelError, errorCode = 45, errorText = [], stmtNo = Some 1\<rparr>],
        onlyWarnings = False\<rparr>"
    by code_simp
  have d: "\<forall>k a. declineAll k a = Decline None"
    by (simp add: declineAll_def)
  note t = SkipParts_is_IterateParts_nil
         [where env = wire and r = "newReader e3Reply False" and f = declineAll and ?r2.0 = ?a and x = ?x]
  from t [THEN conjunct2, THEN conjunct1] d
  have 1: "IterateParts wire (Some declineAll) (newReader e3Reply False)
             = SkipParts wire (newReader e3Reply False)"
    by simp
  from t [THEN conjunct2, THEN conjunct2, THEN conjunct2, THEN conjunct2, THEN conjunct2,
          THEN conjunct2] a st
  have 2: "SkipParts wire (newReader e3Reply False)
             = Returns (Some (ErrServer (fuse (lastRowsAffected ?a) ?x)), initReadFlags ?a)"
    by simp
  show ?thesis
    using 1 by (simp add: 2 fu result_def)
qed

subsection \<open>Padding after a part\<close>






lemma setLast_counters [simp]:
  "cntPart (setLast p r) = cntPart r" "numPart (setLast p r) = numPart r"
  by (simp_all add: setLast_def split: Part.splits)











end
